theory Spec2Isabelle
  imports Complex_Main
begin

section \<open>Text primitives of the host language\<close>

text \<open>
  Source texts and queries are strings of code units; the model covers the code units
  0..255, one \<^typ>\<open>char\<close> each. Within that range the regular-expression classes
  \<^verbatim>\<open>\w\<close> and \<^verbatim>\<open>\s\<close> and the method \<^verbatim>\<open>toLowerCase\<close> are as follows.
\<close>

definition is_word :: "char \<Rightarrow> bool" where
  "is_word c =
     (let n = (of_char c :: nat)
      in (48 \<le> n \<and> n \<le> 57) \<or> (65 \<le> n \<and> n \<le> 90) \<or> n = 95 \<or> (97 \<le> n \<and> n \<le> 122))"

definition is_space :: "char \<Rightarrow> bool" where
  "is_space c = (let n = (of_char c :: nat) in (9 \<le> n \<and> n \<le> 13) \<or> n = 32 \<or> n = 160)"

definition lower_char :: "char \<Rightarrow> char" where
  "lower_char c =
     (let n = (of_char c :: nat)
      in if (65 \<le> n \<and> n \<le> 90) \<or> (192 \<le> n \<and> n \<le> 222 \<and> n \<noteq> 215)
         then char_of (n + 32) else c)"

definition toLowerCase :: "string \<Rightarrow> string" where
  "toLowerCase s = map lower_char s"

text \<open>\<^verbatim>\<open>String.prototype.includes\<close>: the argument occurs as a contiguous run.\<close>

fun startsWith :: "string \<Rightarrow> string \<Rightarrow> bool" where
  "startsWith s [] = True"
| "startsWith [] (p # ps) = False"
| "startsWith (c # cs) (p # ps) = (c = p \<and> startsWith cs ps)"

fun str_includes :: "string \<Rightarrow> string \<Rightarrow> bool" where
  "str_includes [] k = (k = [])"
| "str_includes (c # cs) k = (startsWith (c # cs) k \<or> str_includes cs k)"

text \<open>
  \<^verbatim>\<open>s.split(/\s+/)\<close>: the pieces between maximal runs of white space; a run at either
  end of the text leaves an empty piece there, and the empty text gives one empty piece.
  The flag says that the scan is inside a run of white space.
\<close>

fun split_ws_from :: "string \<Rightarrow> bool \<Rightarrow> string \<Rightarrow> string list" where
  "split_ws_from cur inrun [] = [rev cur]"
| "split_ws_from cur inrun (c # cs) =
     (if is_space c
      then (if inrun then split_ws_from cur True cs
            else rev cur # split_ws_from [] True cs)
      else split_ws_from (c # cur) False cs)"

definition split_ws :: "string \<Rightarrow> string list" where
  "split_ws s = split_ws_from [] False s"

text \<open>\<^verbatim>\<open>parts.join(sep)\<close>.\<close>

fun join :: "string \<Rightarrow> string list \<Rightarrow> string" where
  "join sep [] = []"
| "join sep [x] = x"
| "join sep (x # y # ys) = x @ sep @ join sep (y # ys)"

text \<open>
  A \<^verbatim>\<open>Set<string>\<close> keeps its members in insertion order without repetition; it is a
  list here, \<^verbatim>\<open>Array.from\<close> being the identity.
\<close>

definition set_add :: "string list \<Rightarrow> string \<Rightarrow> string list" where
  "set_add s x = (if x \<in> set s then s else s @ [x])"

definition set_of_list :: "string list \<Rightarrow> string list" where
  "set_of_list xs = foldl set_add [] xs"

definition set_delete :: "string list \<Rightarrow> string \<Rightarrow> string list" where
  "set_delete s x = filter (\<lambda>y. y \<noteq> x) s"

text \<open>\<^verbatim>\<open>xs.find(p)\<close>: the first element that satisfies \<open>p\<close>, if any.\<close>

fun find_first :: "('a \<Rightarrow> bool) \<Rightarrow> 'a list \<Rightarrow> 'a option" where
  "find_first p [] = None"
| "find_first p (x # xs) = (if p x then Some x else find_first p xs)"

text \<open>A \<^verbatim>\<open>Map\<close> with text keys keeps its keys in insertion order; it is a list of
  pairs. \<^verbatim>\<open>Map.set\<close>: a present key keeps its place and takes the new value.\<close>

fun map_set :: "(string \<times> 'v) list \<Rightarrow> string \<Rightarrow> 'v \<Rightarrow> (string \<times> 'v) list" where
  "map_set [] k v = [(k, v)]"
| "map_set ((k', v') # kvs) k v =
     (if k' = k then (k, v) # kvs else (k', v') # map_set kvs k v)"

section \<open>Data model (analyzer.ts)\<close>

record ColumnInfo =
  col_name :: string
  col_type :: "string option"
  primaryKey :: "bool option"
  allowNull :: "bool option"
  unique :: "bool option"
  defaultValue :: "string option"
  enumValues :: "string list option"
  references :: "(string \<times> string) option"   \<comment> \<open>\<open>(model, key)\<close>\<close>

record Association =
  assoc_type :: string
  target :: string
  foreignKey :: "string option"
  as_alias :: "string option"   \<comment> \<open>the property \<^verbatim>\<open>as\<close>\<close>

text \<open>
  \<^verbatim>\<open>ModelInfo\<close>. The retrieval code also reads an optional \<^verbatim>\<open>description\<close>, which the
  analyzer never sets.
\<close>

record ModelInfo =
  name :: string
  tableName :: string
  columns :: "ColumnInfo list"
  associations :: "Association list"
  description :: "string option"

record SchemaInfo =
  models :: "ModelInfo list"
  schema :: string

datatype error =
    NoModelsDirectory
  | NoModelFiles
  | NoValidModels
  | ParseError
  | NotInitialized
  | PipelineFailure
  | EmbedderMissing
  | EmbeddingFailure

section \<open>Syntax trees of the external parser\<close>

text \<open>
  The files are parsed by an external parser, a parameter \<open>parse\<close> of the model that
  gives the syntax tree of a text, or nothing when parsing throws. The tree has the node
  kinds that the analyzer tells apart; every node carries its \<open>start\<close> and \<open>end\<close> offsets
  in the text. All other kinds of node are \<open>OtherNode\<close>, with their children in the order of
  the traversal. A hole of an array literal is \<open>None\<close>.
\<close>

datatype node =
    Identifier nat nat string
  | StringLiteral nat nat string
  | MemberExpression nat nat node node
  | CallExpression nat nat node "node list"
  | ObjectExpression nat nat "node list"
  | ObjectProperty nat nat node node
  | ArrayExpression nat nat "node option list"
  | OtherNode nat nat "node list"

type_synonym parser = "string \<Rightarrow> node option"

fun node_start :: "node \<Rightarrow> nat" where
  "node_start (Identifier s e n) = s"
| "node_start (StringLiteral s e v) = s"
| "node_start (MemberExpression s e ob p) = s"
| "node_start (CallExpression s e c as) = s"
| "node_start (ObjectExpression s e ps) = s"
| "node_start (ObjectProperty s e k v) = s"
| "node_start (ArrayExpression s e es) = s"
| "node_start (OtherNode s e cs) = s"

fun node_end :: "node \<Rightarrow> nat" where
  "node_end (Identifier s e n) = e"
| "node_end (StringLiteral s e v) = e"
| "node_end (MemberExpression s e ob p) = e"
| "node_end (CallExpression s e c as) = e"
| "node_end (ObjectExpression s e ps) = e"
| "node_end (ObjectProperty s e k v) = e"
| "node_end (ArrayExpression s e es) = e"
| "node_end (OtherNode s e cs) = e"

text \<open>\<^verbatim>\<open>content.slice(node.start, node.end)\<close>, the source text of a node.\<close>

definition source_of :: "string \<Rightarrow> node \<Rightarrow> string" where
  "source_of content n = take (node_end n - node_start n) (drop (node_start n) content)"

text \<open>
  \<^verbatim>\<open>traverse(ast, { CallExpression(path) {...} })\<close> calls the visitor on every call
  expression, a node before its children, the children from left to right.
\<close>

fun calls :: "node \<Rightarrow> node list" where
  "calls (Identifier s e n) = []"
| "calls (StringLiteral s e v) = []"
| "calls (MemberExpression s e ob p) = calls ob @ calls p"
| "calls (CallExpression s e c as) =
     CallExpression s e c as # calls c @ concat (map calls as)"
| "calls (ObjectExpression s e ps) = concat (map calls ps)"
| "calls (ObjectProperty s e k v) = calls k @ calls v"
| "calls (ArrayExpression s e es) =
     concat (map (\<lambda>el. case el of None \<Rightarrow> [] | Some n \<Rightarrow> calls n) es)"
| "calls (OtherNode s e cs) = concat (map calls cs)"

definition trim :: "string \<Rightarrow> string" where
  "trim s = rev (dropWhile is_space (rev (dropWhile is_space s)))"

text \<open>\<^verbatim>\<open>s.replace(/['"`]/g, '')\<close> and \<^verbatim>\<open>s.replace(/['"]/g, '')\<close>.\<close>

definition is_quote :: "char \<Rightarrow> bool" where
  "is_quote c = (c = CHR 0x27 \<or> c = CHR 0x22 \<or> c = CHR 0x60)"

definition strip_quotes :: "string \<Rightarrow> string" where
  "strip_quotes s = filter (\<lambda>c. \<not> is_quote c) s"

definition strip_quotes2 :: "string \<Rightarrow> string" where
  "strip_quotes2 s = filter (\<lambda>c. c \<noteq> CHR 0x27 \<and> c \<noteq> CHR 0x22) s"

section \<open>Model parser (analyzer.ts)\<close>

datatype diagnostic = FailedModelFile string | FailedAssociationFile | FailedReload

definition new_column :: "string \<Rightarrow> ColumnInfo" where
  "new_column n =
     \<lparr>col_name = n, col_type = None, primaryKey = None, allowNull = None, unique = None,
      defaultValue = None, enumValues = None, references = None\<rparr>"

fun object_properties :: "node \<Rightarrow> node list option" where
  "object_properties (ObjectExpression s e ps) = Some ps"
| "object_properties n = None"

fun enum_element :: "string \<Rightarrow> node option \<Rightarrow> string list" where
  "enum_element content None = []"
| "enum_element content (Some (StringLiteral s e v)) = [v]"
| "enum_element content (Some (Identifier s e n)) = [n]"
| "enum_element content (Some n) = [strip_quotes2 (source_of content n)]"

fun enum_step :: "string \<Rightarrow> ColumnInfo \<Rightarrow> node \<Rightarrow> ColumnInfo" where
  "enum_step content col (ObjectProperty s e (Identifier ks ke k) (ArrayExpression vs ve els)) =
     (if k = ''values''
      then (let enumVals = concat (map (enum_element content) els)
            in if length enumVals > 0 then col\<lparr>enumValues := Some enumVals\<rparr> else col)
      else col)"
| "enum_step content col n = col"

fun ref_step :: "string \<Rightarrow> string option \<times> string option \<Rightarrow> node \<Rightarrow> string option \<times> string option"
  where
  "ref_step content (model, refKey) (ObjectProperty s e (Identifier ks ke k) v) =
     (if k = ''model'' then Some (strip_quotes (source_of content v)) else model,
      if k = ''key'' then Some (strip_quotes (source_of content v)) else refKey)"
| "ref_step content acc n = acc"

fun column_field :: "string \<Rightarrow> node list \<Rightarrow> ColumnInfo \<Rightarrow> node \<Rightarrow> ColumnInfo" where
  "column_field content props col (ObjectProperty s e (Identifier ks ke key) v) =
     (let valCode = trim (source_of content v);
          c1 = (if key = ''type''
                then (let c = col\<lparr>col_type := Some valCode\<rparr>
                      in if str_includes valCode ''DataTypes.ENUM'' \<or> str_includes valCode ''ENUM''
                         then foldl (enum_step content) c props else c)
                else col);
          c2 = (if key = ''primaryKey'' \<and> valCode = ''true''
                then c1\<lparr>primaryKey := Some True\<rparr> else c1);
          c3 = (if key = ''allowNull'' \<and> valCode = ''false''
                then c2\<lparr>allowNull := Some False\<rparr> else c2);
          c4 = (if key = ''unique'' \<and> valCode = ''true'' then c3\<lparr>unique := Some True\<rparr> else c3);
          c5 = (if key = ''defaultValue'' then c4\<lparr>defaultValue := Some valCode\<rparr> else c4)
      in if key = ''references''
         then (case object_properties v of
                 None \<Rightarrow> c5
               | Some subs \<Rightarrow>
                   (case foldl (ref_step content) (None, None) subs of
                      (Some model, Some refKey) \<Rightarrow>
                        if model \<noteq> [] \<and> refKey \<noteq> []
                        then c5\<lparr>references := Some (model, refKey)\<rparr> else c5
                    | other \<Rightarrow> c5))
         else c5)"
| "column_field content props col n = col"

fun column_of :: "string \<Rightarrow> node \<Rightarrow> ColumnInfo option" where
  "column_of content (ObjectProperty s e (Identifier ks ke n) v) =
     Some (case object_properties v of
             None \<Rightarrow> new_column n
           | Some props \<Rightarrow> foldl (column_field content props) (new_column n) props)"
| "column_of content n = None"

fun define_columns :: "string \<Rightarrow> node \<Rightarrow> ColumnInfo list" where
  "define_columns content (CallExpression s e (MemberExpression ms me ob (Identifier ps pe p)) args) =
     (if p = ''define'' \<and> length args \<ge> 2
      then (case object_properties (args ! 1) of
              None \<Rightarrow> []
            | Some props \<Rightarrow> List.map_filter (column_of content) props)
      else [])"
| "define_columns content n = []"

definition parseColumns :: "parser \<Rightarrow> string \<Rightarrow> error + ColumnInfo list" where
  "parseColumns parse content =
     (case parse content of
        None \<Rightarrow> Inl ParseError
      | Some ast \<Rightarrow> Inr (concat (map (define_columns content) (calls ast))))"

section \<open>Centralized association files (analyzer.ts)\<close>

type_synonym association_map = "(string \<times> Association list) list"

definition map_get :: "association_map \<Rightarrow> string \<Rightarrow> Association list" where
  "map_get m k = (case map_of m k of None \<Rightarrow> [] | Some as \<Rightarrow> as)"

definition associationTypes :: "string list" where
  "associationTypes = [''hasMany'', ''hasOne'', ''belongsTo'', ''belongsToMany'']"

definition new_association :: "string \<Rightarrow> string \<Rightarrow> Association" where
  "new_association ty tg = \<lparr>assoc_type = ty, target = tg, foreignKey = None, as_alias = None\<rparr>"

fun model_ref :: "node \<Rightarrow> string option" where
  "model_ref (MemberExpression s e ob (Identifier ps pe n)) = Some n"
| "model_ref (Identifier s e n) = Some n"
| "model_ref n = None"

fun option_step :: "string \<Rightarrow> Association \<Rightarrow> node \<Rightarrow> Association" where
  "option_step content a (ObjectProperty s e (Identifier ks ke key) v) =
     (let a1 = (if key = ''foreignKey''
                then a\<lparr>foreignKey :=
                         Some (case v of
                                 StringLiteral vs ve val \<Rightarrow> val
                               | Identifier vs ve n \<Rightarrow> n
                               | other \<Rightarrow> strip_quotes (source_of content v))\<rparr>
                else a)
      in if key = ''as''
         then a1\<lparr>as_alias :=
                   Some (case v of
                           StringLiteral vs ve val \<Rightarrow> val
                         | other \<Rightarrow> strip_quotes (source_of content v))\<rparr>
         else a1)"
| "option_step content a n = a"

fun central_call :: "string \<Rightarrow> node \<Rightarrow> (string \<times> Association) option" where
  "central_call content
     (CallExpression s e (MemberExpression ms me ob (Identifier ps pe associationType)) args) =
     (if associationType \<in> set associationTypes
      then (case model_ref ob of
              None \<Rightarrow> None
            | Some sourceModel \<Rightarrow>
                if sourceModel = [] then None
                else (case args of
                        [] \<Rightarrow> None
                      | firstArg # rest \<Rightarrow>
                          (case model_ref firstArg of
                             None \<Rightarrow> None
                           | Some targetModel \<Rightarrow>
                               if targetModel = [] then None
                               else Some (sourceModel,
                                      case rest of
                                        [] \<Rightarrow> new_association associationType targetModel
                                      | secondArg # others \<Rightarrow>
                                          (case object_properties secondArg of
                                             None \<Rightarrow> new_association associationType targetModel
                                           | Some props \<Rightarrow>
                                               foldl (option_step content)
                                                 (new_association associationType targetModel)
                                                 props)))))
      else None)"
| "central_call content n = None"

definition map_push :: "association_map \<Rightarrow> string \<times> Association \<Rightarrow> association_map" where
  "map_push m ka = map_set m (fst ka) (map_get m (fst ka) @ [snd ka])"

definition parseCentralizedAssociationFile ::
  "parser \<Rightarrow> string \<Rightarrow> diagnostic list \<times> association_map" where
  "parseCentralizedAssociationFile parse content =
     (case parse content of
        None \<Rightarrow> ([FailedAssociationFile], [])
      | Some ast \<Rightarrow> ([], foldl map_push [] (List.map_filter (central_call content) (calls ast))))"

text \<open>
  A models directory: its entries in the order of the listing, each a file name with the
  text of the file.
\<close>

type_synonym directory = "(string \<times> string) list"

definition merge_file :: "association_map \<Rightarrow> association_map \<Rightarrow> association_map" where
  "merge_file associationMap fileAssociations =
     foldl (\<lambda>m (modelName, assocs). map_set m modelName (map_get m modelName @ assocs))
       associationMap fileAssociations"

text \<open>The loop over the index files of \<^verbatim>\<open>parseCentralizedAssociations\<close>.\<close>

fun parse_index_files ::
  "parser \<Rightarrow> directory \<Rightarrow> diagnostic list \<times> association_map \<Rightarrow> string list
     \<Rightarrow> diagnostic list \<times> association_map" where
  "parse_index_files parse dir acc [] = acc"
| "parse_index_files parse dir (warnings, associationMap) (filename # rest) =
     (case map_of dir filename of
        None \<Rightarrow> parse_index_files parse dir (warnings, associationMap) rest
      | Some content \<Rightarrow>
          (let (warned, fileAssociations) = parseCentralizedAssociationFile parse content
           in parse_index_files parse dir
                (warnings @ warned, merge_file associationMap fileAssociations) rest))"

text \<open>The loop over the dedicated files returns at the first one that exists.\<close>

fun parse_dedicated_files ::
  "parser \<Rightarrow> directory \<Rightarrow> string list \<Rightarrow> (diagnostic list \<times> association_map) option" where
  "parse_dedicated_files parse dir [] = None"
| "parse_dedicated_files parse dir (filename # rest) =
     (case map_of dir filename of
        None \<Rightarrow> parse_dedicated_files parse dir rest
      | Some content \<Rightarrow>
          (let (warned, fileAssociations) = parseCentralizedAssociationFile parse content
           in Some (warned, merge_file [] fileAssociations)))"

definition parseCentralizedAssociations ::
  "parser \<Rightarrow> directory \<Rightarrow> diagnostic list \<times> association_map" where
  "parseCentralizedAssociations parse dir =
     (case parse_dedicated_files parse dir [''associations.js'', ''associations.ts''] of
        Some r \<Rightarrow> r
      | None \<Rightarrow> parse_index_files parse dir ([], []) [''index.js'', ''index.ts''])"

text \<open>The key of \<^verbatim>\<open>mergeCentralizedAssociations\<close>: \<^verbatim>\<open>`${a.type}-${a.target}-${a.as || ''}`\<close>.\<close>

definition dedup_key :: "Association \<Rightarrow> string" where
  "dedup_key a =
     assoc_type a @ ''-'' @ target a @ ''-'' @ (case as_alias a of None \<Rightarrow> [] | Some s \<Rightarrow> s)"

definition merge_model :: "association_map \<Rightarrow> ModelInfo \<Rightarrow> ModelInfo" where
  "merge_model centralizedAssociations model =
     (case map_of centralizedAssociations (name model) of
        None \<Rightarrow> model
      | Some centralized \<Rightarrow>
          if length centralized > 0
          then (let existingKeys = map dedup_key (associations model);
                    newAssociations =
                      filter (\<lambda>a. dedup_key a \<notin> set existingKeys) centralized
                in if length newAssociations > 0
                   then model\<lparr>associations := associations model @ newAssociations\<rparr>
                   else model)
          else model)"

definition mergeCentralizedAssociations :: "ModelInfo list \<Rightarrow> association_map \<Rightarrow> ModelInfo list"
  where
  "mergeCentralizedAssociations ms centralizedAssociations =
     map (merge_model centralizedAssociations) ms"

section \<open>Text patterns of the model parser\<close>

text \<open>
  The regular expressions of the analyzer are matched by hand-written matchers. In each
  of them a repetition is followed by a character outside the repeated class, so the
  greedy match is the only one and backtracking finds nothing else.
\<close>

text \<open>A literal at the start of the text; the result is the text after it.\<close>

fun match_literal :: "string \<Rightarrow> string \<Rightarrow> string option" where
  "match_literal [] s = Some s"
| "match_literal (p # ps) [] = None"
| "match_literal (p # ps) (c # cs) = (if p = c then match_literal ps cs else None)"

text \<open>
  \<^verbatim>\<open>\s*['"`](C+)['"`]\<close> at the start of the text, for a class \<open>C\<close> without quotes: the
  captured group.
\<close>

definition quoted_value :: "(char \<Rightarrow> bool) \<Rightarrow> string \<Rightarrow> string option" where
  "quoted_value cls s =
     (case dropWhile is_space s of
        [] \<Rightarrow> None
      | q # r \<Rightarrow>
          if is_quote q \<and> takeWhile cls r \<noteq> []
          then (case dropWhile cls r of
                  [] \<Rightarrow> None
                | q2 # r2 \<Rightarrow> if is_quote q2 then Some (takeWhile cls r) else None)
          else None)"

text \<open>\<^verbatim>\<open>text.match(re)\<close> without the global flag: the match at the leftmost position.\<close>

fun first_match :: "(string \<Rightarrow> 'a option) \<Rightarrow> string \<Rightarrow> 'a option" where
  "first_match m [] = m []"
| "first_match m (c # cs) = (case m (c # cs) of Some r \<Rightarrow> Some r | None \<Rightarrow> first_match m cs)"

text \<open>\<^verbatim>\<open>/tableName:\s*['"`]([^'"`]+)['"`]/\<close>\<close>

definition tableName_match :: "string \<Rightarrow> string option" where
  "tableName_match content =
     first_match
       (\<lambda>s. case match_literal ''tableName:'' s of
              None \<Rightarrow> None
            | Some r \<Rightarrow> quoted_value (\<lambda>c. \<not> is_quote c) r)
       content"

text \<open>\<^verbatim>\<open>/KEY\s*['"`](\w+)['"`]/\<close> for the keys \<^verbatim>\<open>foreignKey:\<close> and \<^verbatim>\<open>as:\<close>.\<close>

definition option_match :: "string \<Rightarrow> string \<Rightarrow> string option" where
  "option_match key options =
     first_match
       (\<lambda>s. case match_literal key s of None \<Rightarrow> None | Some r \<Rightarrow> quoted_value is_word r)
       options"

text \<open>
  \<^verbatim>\<open>/\.KIND\s*\(\s*(\w+)(?:,\s*\{([^}]+)\})?\)/\<close> at the start of the text: the target
  (group 1), the options (group 2, if the optional group took part) and the text after the
  match.
\<close>

definition association_at :: "string \<Rightarrow> string \<Rightarrow> (string \<times> string option \<times> string) option" where
  "association_at kind s =
     (case match_literal (''.'' @ kind) s of
        None \<Rightarrow> None
      | Some r1 \<Rightarrow>
          (case match_literal ''('' (dropWhile is_space r1) of
             None \<Rightarrow> None
           | Some r2 \<Rightarrow>
               (let r3 = dropWhile is_space r2;
                    word = takeWhile is_word r3;
                    r4 = dropWhile is_word r3
                in if word = [] then None
                   else (case match_literal '','' r4 of
                           Some r5 \<Rightarrow>
                             (case match_literal ''{'' (dropWhile is_space r5) of
                                None \<Rightarrow> None
                              | Some r6 \<Rightarrow>
                                  (let opts = takeWhile (\<lambda>c. c \<noteq> CHR ''}'') r6
                                   in if opts = [] then None
                                      else (case match_literal ''})''
                                                   (dropWhile (\<lambda>c. c \<noteq> CHR ''}'') r6) of
                                              None \<Rightarrow> None
                                            | Some r7 \<Rightarrow> Some (word, Some opts, r7))))
                         | None \<Rightarrow>
                             (case match_literal '')'' r4 of
                                None \<Rightarrow> None
                              | Some r5 \<Rightarrow> Some (word, None, r5))))))"

lemma match_literal_length:
  "match_literal p s = Some r \<Longrightarrow> length r + length p = length s"
  by (induction p s rule: match_literal.induct) (auto split: if_splits)

lemma match_literal_dropWhile:
  "match_literal p (dropWhile P xs) = Some r \<Longrightarrow> length r + length p \<le> length xs"
  using match_literal_length [of p "dropWhile P xs" r] length_dropWhile_le [of P xs] by simp

lemma association_at_shorter:
  assumes "association_at kind s = Some (w, opts, r)"
  shows "length r < length s"
proof -
  from assms obtain r1 r2 where
    r1: "match_literal (''.'' @ kind) s = Some r1" and
    r2: "match_literal ''('' (dropWhile is_space r1) = Some r2"
    by (auto simp: association_at_def split: option.splits)
  let ?r4 = "dropWhile is_word (dropWhile is_space r2)"
  have a: "length r1 < length s"
    using match_literal_length [OF r1] by simp
  have b: "length r2 \<le> length r1"
    using match_literal_dropWhile [OF r2] by simp
  have c: "length ?r4 \<le> length r2"
    using length_dropWhile_le [of is_word "dropWhile is_space r2"]
      length_dropWhile_le [of is_space r2] by simp
  have "length r \<le> length ?r4"
  proof (cases "match_literal '','' ?r4")
    case None
    with assms r1 r2 have "match_literal '')'' ?r4 = Some r"
      by (auto simp: association_at_def Let_def split: option.splits if_splits)
    from match_literal_length [OF this] show ?thesis by simp
  next
    case (Some r5)
    with assms r1 r2 obtain r6 where
      r6: "match_literal ''{'' (dropWhile is_space r5) = Some r6" and
      r7: "match_literal ''})'' (dropWhile (\<lambda>c. c \<noteq> CHR ''}'') r6) = Some r"
      by (auto simp: association_at_def Let_def split: option.splits if_splits)
    from match_literal_length [OF Some] match_literal_dropWhile [OF r6]
      match_literal_dropWhile [OF r7]
    show ?thesis by simp
  qed
  with a b c show ?thesis by simp
qed

text \<open>
  The loop \<^verbatim>\<open>while ((match = regex.exec(content)) !== null)\<close> of a global expression:
  each search starts where the match before it ended.
\<close>

function association_matches :: "string \<Rightarrow> string \<Rightarrow> (string \<times> string option) list" where
  "association_matches kind [] = []"
| "association_matches kind (c # cs) =
     (case association_at kind (c # cs) of
        None \<Rightarrow> association_matches kind cs
      | Some (w, opts, r) \<Rightarrow> (w, opts) # association_matches kind r)"
  by pat_completeness auto
termination
  by (relation "measure (\<lambda>(kind, s). length s)") (auto dest: association_at_shorter)

definition association_of :: "string \<Rightarrow> string \<times> string option \<Rightarrow> Association" where
  "association_of kind m =
     (let options = (case snd m of None \<Rightarrow> [] | Some opts \<Rightarrow> opts)
      in \<lparr>assoc_type = kind, target = fst m,
          foreignKey = option_match ''foreignKey:'' options,
          as_alias = option_match ''as:'' options\<rparr>)"

definition parseAssociations :: "string \<Rightarrow> Association list" where
  "parseAssociations content =
     concat (map (\<lambda>kind. map (association_of kind) (association_matches kind content))
               associationTypes)"

section \<open>Files, entities and the snapshot (analyzer.ts)\<close>

definition endsWith :: "string \<Rightarrow> string \<Rightarrow> bool" where
  "endsWith s suffix = startsWith (rev s) (rev suffix)"

text \<open>
  \<^verbatim>\<open>path.extname\<close> and \<^verbatim>\<open>path.basename\<close> of the run-time library, on a name without
  separators, as a directory listing gives it: the extension starts at the last dot and
  is empty when there is no dot, when the only dot leads the name, or for the name
  \<^verbatim>\<open>..\<close>; the base name drops a given non-empty suffix.
\<close>

definition extname :: "string \<Rightarrow> string" where
  "extname f =
     (if CHR ''.'' \<notin> set f then []
      else (let ext = CHR ''.'' # rev (takeWhile (\<lambda>c. c \<noteq> CHR ''.'') (rev f))
            in if length ext = length f \<or> f = ''..'' then [] else ext))"

definition basename :: "string \<Rightarrow> string \<Rightarrow> string" where
  "basename f suffix =
     (if suffix \<noteq> [] \<and> length suffix \<le> length f
      then (if suffix = f then []
            else if endsWith f suffix then take (length f - length suffix) f else f)
      else f)"

definition parseModelFile :: "parser \<Rightarrow> string \<Rightarrow> string \<Rightarrow> error + ModelInfo option" where
  "parseModelFile parse content filename =
     (let modelName = basename filename (extname filename);
          tableName0 = (case tableName_match content of
                          None \<Rightarrow> toLowerCase modelName
                        | Some t \<Rightarrow> t)
      in case parseColumns parse content of
           Inl e \<Rightarrow> Inl e
         | Inr cols \<Rightarrow>
             if length cols = 0 then Inr None
             else Inr (Some \<lparr>name = modelName, tableName = tableName0, columns = cols,
                              associations = parseAssociations content,
                              description = None\<rparr>))"

definition is_model_file :: "string \<Rightarrow> bool" where
  "is_model_file file =
     ((endsWith file ''.js'' \<or> endsWith file ''.ts'')
      \<and> \<not> endsWith file ''.d.ts''
      \<and> \<not> endsWith file ''.test.js''
      \<and> \<not> endsWith file ''.test.ts''
      \<and> file \<noteq> ''index.js''
      \<and> file \<noteq> ''index.ts''
      \<and> file \<noteq> ''associations.js''
      \<and> file \<noteq> ''associations.ts'')"

text \<open>
  One round of the first pass: a file that cannot be read or parsed is reported and
  skipped, a file without columns is skipped, any other file adds its entity.
\<close>

definition scan_file ::
  "parser \<Rightarrow> directory \<Rightarrow> diagnostic list \<times> ModelInfo list \<Rightarrow> string
     \<Rightarrow> diagnostic list \<times> ModelInfo list" where
  "scan_file parse dir acc file =
     (case map_of dir file of
        None \<Rightarrow> (fst acc @ [FailedModelFile file], snd acc)
      | Some content \<Rightarrow>
          (case parseModelFile parse content file of
             Inl e \<Rightarrow> (fst acc @ [FailedModelFile file], snd acc)
           | Inr None \<Rightarrow> acc
           | Inr (Some modelInfo) \<Rightarrow> (fst acc, snd acc @ [modelInfo])))"

definition truthy_text :: "string option \<Rightarrow> string option" where
  "truthy_text v = (case v of None \<Rightarrow> None | Some s \<Rightarrow> if s = [] then None else Some s)"

definition column_line :: "ColumnInfo \<Rightarrow> string" where
  "column_line col =
     (let constraints =
            (if primaryKey col = Some True then [''PRIMARY KEY''] else [])
            @ (if allowNull col = Some False then [''NOT NULL''] else [])
            @ (if unique col = Some True then [''UNIQUE''] else [])
            @ (case truthy_text (defaultValue col) of
                 None \<Rightarrow> [] | Some d \<Rightarrow> [''DEFAULT '' @ d])
            @ (case enumValues col of
                 None \<Rightarrow> []
               | Some vs \<Rightarrow>
                   if length vs > 0 then [''ALLOWED VALUES: ['' @ join '', '' vs @ '']'']
                   else [])
            @ (case references col of
                 None \<Rightarrow> []
               | Some (m, k) \<Rightarrow> [''REFERENCES '' @ m @ ''('' @ k @ '')'']);
          constraintStr =
            (if length constraints > 0 then '' ['' @ join '', '' constraints @ '']'' else [])
      in ''  - '' @ col_name col @ '': ''
         @ (case col_type col of None \<Rightarrow> ''undefined'' | Some t \<Rightarrow> t) @ constraintStr)"

definition association_line :: "Association \<Rightarrow> string" where
  "association_line assoc =
     (let details =
            (case truthy_text (foreignKey assoc) of
               None \<Rightarrow> [] | Some f \<Rightarrow> [''foreignKey: '' @ f])
            @ (case truthy_text (as_alias assoc) of None \<Rightarrow> [] | Some a \<Rightarrow> [''as: '' @ a]);
          detailStr = (if length details > 0 then '' ('' @ join '', '' details @ '')'' else [])
      in ''  - '' @ assoc_type assoc @ '' '' @ target assoc @ detailStr)"

definition model_lines :: "ModelInfo \<Rightarrow> string list" where
  "model_lines model =
     [''Table: '' @ tableName model @ '' (Model: '' @ name model @ '')'', ''Columns:'']
     @ map column_line (columns model)
     @ (if length (associations model) > 0
        then ''Associations:'' # map association_line (associations model) else [])
     @ ['''']"

definition generateSchemaDescription :: "ModelInfo list \<Rightarrow> string" where
  "generateSchemaDescription ms = join [CHR 0x0A] (concat (map model_lines ms))"

text \<open>
  \<^verbatim>\<open>analyzeProject\<close>. Its input is the models directory of the project, if there is one;
  its output is the warnings written on the way and the snapshot or the error thrown.
\<close>

definition analyzeProject ::
  "parser \<Rightarrow> directory option \<Rightarrow> diagnostic list \<times> (error + SchemaInfo)" where
  "analyzeProject parse modelsDir =
     (case modelsDir of
        None \<Rightarrow> ([], Inl NoModelsDirectory)
      | Some dir \<Rightarrow>
          (let modelFiles = filter is_model_file (map fst dir)
           in if length modelFiles = 0 then ([], Inl NoModelFiles)
              else (let (warnings, parsed) = foldl (scan_file parse dir) ([], []) modelFiles
                    in if length parsed = 0 then (warnings, Inl NoValidModels)
                       else (let (warned, centralizedAssociations) =
                                   parseCentralizedAssociations parse dir;
                                 merged = mergeCentralizedAssociations parsed
                                            centralizedAssociations
                             in (warnings @ warned,
                                 Inr \<lparr>models = merged,
                                      schema = generateSchemaDescription merged\<rparr>)))))"

section \<open>Live schema tracker (analyzer.ts)\<close>

record WatchableSchema =
  schemaInfo :: SchemaInfo
  modelsPath :: string
  watcher :: bool

text \<open>
  \<^verbatim>\<open>reload\<close>. The directory is the one that \<^verbatim>\<open>analyzeProject\<close> finds for the project of
  the tracker at the time of the call.
\<close>

definition reload ::
  "parser \<Rightarrow> directory option \<Rightarrow> WatchableSchema
     \<Rightarrow> diagnostic list \<times> (error + unit) \<times> WatchableSchema" where
  "reload parse modelsDir ws =
     (case analyzeProject parse modelsDir of
        (warnings, Inr newSchemaInfo) \<Rightarrow> (warnings, Inr (), ws\<lparr>schemaInfo := newSchemaInfo\<rparr>)
      | (warnings, Inl e) \<Rightarrow> (warnings @ [FailedReload], Inl e, ws))"

section \<open>Vector search (vector-search.ts)\<close>

text \<open>
  Numbers are modelled as reals: sums and comparisons are exact, where the code rounds to
  double precision. The embedding provider is outside the repository: it is
  a parameter, \<open>load\<close> telling whether fetching the pipeline succeeds and \<open>run\<close> giving the
  normalised vector of a text, or nothing when the call fails.
\<close>

record Provider =
  load :: bool
  run :: "string \<Rightarrow> real list option"

record VectorSearch =
  embedder :: bool   \<comment> \<open>whether \<^verbatim>\<open>this.embedder\<close> has been set\<close>
  modelEmbeddings :: "(string \<times> real list) list"
  vs_models :: "ModelInfo list"
  initialized :: bool

definition new_VectorSearch :: VectorSearch where
  "new_VectorSearch =
     \<lparr>embedder = False, modelEmbeddings = [], vs_models = [], initialized = False\<rparr>"

definition columnToText :: "ColumnInfo \<Rightarrow> string" where
  "columnToText c =
     join '' ''
       ([col_name c]
        @ (case col_type c of Some t \<Rightarrow> (if t \<noteq> [] then [t] else []) | None \<Rightarrow> [])
        @ (if primaryKey c = Some True then [''primary key''] else [])
        @ (if allowNull c = Some False then [''required''] else [])
        @ (if unique c = Some True then [''unique''] else [])
        @ (case defaultValue c of
             Some d \<Rightarrow> (if d \<noteq> [] then [''default '' @ d] else []) | None \<Rightarrow> [])
        @ (case enumValues c of
             Some vs \<Rightarrow> (if vs \<noteq> [] then [''possible values: '' @ join '' '' vs] else [])
           | None \<Rightarrow> [])
        @ (case references c of Some (m, k) \<Rightarrow> [''references '' @ m] | None \<Rightarrow> []))"

definition associationToText :: "Association \<Rightarrow> string" where
  "associationToText a =
     join '' ''
       ([assoc_type a, target a]
        @ (case foreignKey a of
             Some f \<Rightarrow> (if f \<noteq> [] then [''foreign key '' @ f] else []) | None \<Rightarrow> [])
        @ (case as_alias a of
             Some s \<Rightarrow> (if s \<noteq> [] then [''alias '' @ s] else []) | None \<Rightarrow> []))"

definition modelToSearchableText :: "ModelInfo \<Rightarrow> string" where
  "modelToSearchableText m =
     join ''. ''
       ([''Model name: '' @ name m, ''Table name: '' @ tableName m]
        @ (case description m of
             Some d \<Rightarrow> (if d \<noteq> [] then [''Description: '' @ d] else []) | None \<Rightarrow> [])
        @ [''Columns:'']
        @ map columnToText (columns m)
        @ (if associations m \<noteq> []
           then ''Relationships:'' # map associationToText (associations m) else []))"

definition embed :: "Provider \<Rightarrow> VectorSearch \<Rightarrow> string \<Rightarrow> error + real list" where
  "embed P vs text =
     (if \<not> embedder vs then Inl EmbedderMissing
      else case run P text of None \<Rightarrow> Inl EmbeddingFailure | Some v \<Rightarrow> Inr v)"

text \<open>
  The loop of \<^verbatim>\<open>initialize\<close>: one embedding per model, stored under the model's name.
  A failing call leaves the entries stored so far.
\<close>

fun embed_models ::
  "Provider \<Rightarrow> VectorSearch \<Rightarrow> ModelInfo list \<Rightarrow> error option \<times> VectorSearch" where
  "embed_models P vs [] = (None, vs)"
| "embed_models P vs (m # ms) =
     (case embed P vs (modelToSearchableText m) of
        Inl e \<Rightarrow> (Some e, vs)
      | Inr v \<Rightarrow>
          embed_models P (vs\<lparr>modelEmbeddings := map_set (modelEmbeddings vs) (name m) v\<rparr>) ms)"

definition initialize ::
  "Provider \<Rightarrow> VectorSearch \<Rightarrow> ModelInfo list \<Rightarrow> error option \<times> VectorSearch" where
  "initialize P vs ms =
     (if initialized vs \<and> length (vs_models vs) = length ms then (None, vs)
      else if \<not> embedder vs \<and> \<not> load P then (Some PipelineFailure, vs)
      else
        (let vs1 = vs\<lparr>embedder := True\<rparr>;
             vs2 = vs1\<lparr>vs_models := ms, modelEmbeddings := []\<rparr>
         in case embed_models P vs2 ms of
              (Some e, vs3) \<Rightarrow> (Some e, vs3)
            | (None, vs3) \<Rightarrow> (None, vs3\<lparr>initialized := True\<rparr>)))"

text \<open>
  \<^verbatim>\<open>a.reduce((sum, val, i) => sum + val * b[i], 0)\<close>. The provider returns vectors of one
  fixed length; past the end of \<open>b\<close> the product is not a number, which the model leaves
  unspecified.
\<close>

fun dot_from :: "nat \<Rightarrow> real \<Rightarrow> real list \<Rightarrow> real list \<Rightarrow> real" where
  "dot_from i acc [] b = acc"
| "dot_from i acc (val # a) b = dot_from (Suc i) (acc + val * b ! i) a b"

definition cosineSimilarity :: "real list \<Rightarrow> real list \<Rightarrow> real" where
  "cosineSimilarity a b = dot_from 0 0 a b"

text \<open>\<^verbatim>\<open>sort((a, b) => b.score - a.score)\<close>: descending by score, stable.\<close>

definition sort_scores :: "(string \<times> real) list \<Rightarrow> (string \<times> real) list" where
  "sort_scores xs = sort_key (\<lambda>s. - snd s) xs"

definition score_all :: "VectorSearch \<Rightarrow> real list \<Rightarrow> (string \<times> real) list" where
  "score_all vs q = map (\<lambda>(n, e). (n, cosineSimilarity q e)) (modelEmbeddings vs)"

text \<open>\<^verbatim>\<open>xs.slice(0, k)\<close> for an integer \<open>k\<close>; a negative \<open>k\<close> counts from the end.\<close>

definition slice0 :: "int \<Rightarrow> 'a list \<Rightarrow> 'a list" where
  "slice0 k xs = (if 0 \<le> k then take (nat k) xs else take (length xs - nat (- k)) xs)"

definition vs_findRelevant ::
  "Provider \<Rightarrow> VectorSearch \<Rightarrow> string \<Rightarrow> int \<Rightarrow> real \<Rightarrow> error + ModelInfo list" where
  "vs_findRelevant P vs query topK threshold =
     (if \<not> initialized vs then Inl NotInitialized
      else case embed P vs query of
        Inl e \<Rightarrow> Inl e
      | Inr q \<Rightarrow>
          (let topResults =
                 slice0 topK (filter (\<lambda>s. snd s \<ge> threshold) (sort_scores (score_all vs q)))
           in Inr (List.map_filter
                     (\<lambda>r. find_first (\<lambda>m. name m = fst r) (vs_models vs)) topResults)))"

definition getScores :: "Provider \<Rightarrow> VectorSearch \<Rightarrow> string \<Rightarrow> error + (string \<times> real) list" where
  "getScores P vs query =
     (case embed P vs query of
        Inl e \<Rightarrow> Inl e
      | Inr q \<Rightarrow> Inr (sort_scores (score_all vs q)))"

section \<open>Hybrid retrieval (hybrid-retrieval.ts)\<close>

record Options =
  topK :: "int option"
  threshold :: "real option"
  includeRelated :: "bool option"

definition stopWords :: "string list" where
  "stopWords =
     [''show'', ''get'', ''find'', ''list'', ''all'', ''from'', ''where'', ''select'',
      ''the'', ''and'', ''with'', ''for'', ''that'', ''have'']"

definition extractKeywords :: "string \<Rightarrow> string list" where
  "extractKeywords query =
     (let words =
            filter (\<lambda>w. length w > 2)
              (split_ws (map (\<lambda>c. if is_word c \<or> is_space c then c else CHR '' '')
                           (toLowerCase query)))
      in filter (\<lambda>w. w \<notin> set stopWords) words)"

definition searchableText :: "ModelInfo \<Rightarrow> string" where
  "searchableText model =
     join '' ''
       ([toLowerCase (name model), toLowerCase (tableName model)]
        @ map (\<lambda>c. toLowerCase (col_name c)) (columns model)
        @ split_ws (toLowerCase (case description model of None \<Rightarrow> [] | Some d \<Rightarrow> d)))"

definition findByKeywords :: "ModelInfo list \<Rightarrow> string list \<Rightarrow> ModelInfo list" where
  "findByKeywords allModels keywords =
     (if keywords = [] then []
      else filter (\<lambda>model. \<exists>keyword \<in> set keywords. str_includes (searchableText model) keyword)
             allModels)"

text \<open>
  The body of the loop of \<^verbatim>\<open>findRelatedModels\<close> for one selected name: the targets of the
  model's associations, then the models with an association that targets the name, then
  the first model that a column's foreign reference names by table or by model name.
\<close>

definition referencedModel :: "ModelInfo list \<Rightarrow> ColumnInfo \<Rightarrow> ModelInfo option" where
  "referencedModel allModels col =
     (case references col of
        None \<Rightarrow> None
      | Some (refModel, refKey) \<Rightarrow>
          find_first (\<lambda>m. tableName m = refModel \<or> name m = refModel) allModels)"

definition related_of :: "ModelInfo list \<Rightarrow> string list \<Rightarrow> string \<Rightarrow> string list" where
  "related_of allModels related modelName =
     (case find_first (\<lambda>m. name m = modelName) allModels of
        None \<Rightarrow> related
      | Some model \<Rightarrow>
          (let r1 = foldl (\<lambda>r assoc. set_add r (target assoc)) related (associations model);
               r2 = foldl (\<lambda>r otherModel.
                             if \<exists>assoc \<in> set (associations otherModel). target assoc = modelName
                             then set_add r (name otherModel) else r)
                          r1 allModels
           in foldl (\<lambda>r col.
                       case referencedModel allModels col of
                         None \<Rightarrow> r
                       | Some m \<Rightarrow> set_add r (name m))
                    r2 (columns model)))"

definition findRelatedModels :: "ModelInfo list \<Rightarrow> string list \<Rightarrow> string list" where
  "findRelatedModels allModels selectedModelNames =
     foldl set_delete (foldl (related_of allModels) [] selectedModelNames) selectedModelNames"

definition findRelevant ::
  "Provider \<Rightarrow> VectorSearch \<Rightarrow> ModelInfo list \<Rightarrow> string \<Rightarrow> Options \<Rightarrow> error + ModelInfo list"
  where
  "findRelevant P vs allModels query options =
     (let k = (case topK options of None \<Rightarrow> 5 | Some v \<Rightarrow> v);
          th = (case threshold options of None \<Rightarrow> 0.25 | Some v \<Rightarrow> v);
          rel = (case includeRelated options of None \<Rightarrow> True | Some v \<Rightarrow> v)
      in case vs_findRelevant P vs query k th of
           Inl e \<Rightarrow> Inl e
         | Inr vectorResults \<Rightarrow>
             (let selected0 = set_of_list (map name vectorResults);
                  keywordMatches = findByKeywords allModels (extractKeywords query);
                  selected1 = foldl set_add selected0 (map name keywordMatches);
                  selected2 =
                    (if rel \<and> length selected1 > 0
                     then foldl set_add selected1 (findRelatedModels allModels selected1)
                     else selected1)
              in Inr (filter (\<lambda>m. name m \<in> set selected2) allModels)))"

record Explanation =
  ex_model :: string
  ex_vector :: real
  ex_keyword :: bool
  ex_related :: bool
  ex_reason :: string

text \<open>
  \<^verbatim>\<open>explainSelection\<close>. The text of a percentage, \<^verbatim>\<open>(score * 100).toFixed(1)\<close>, is number
  formatting of the host language and is a parameter.
\<close>

definition explain_entry ::
  "(real \<Rightarrow> string) \<Rightarrow> string list \<Rightarrow> string list \<Rightarrow> string \<times> real \<Rightarrow> Explanation" where
  "explain_entry toFixed1 keywordMatches relatedModels ns =
     (let reasons =
            (if snd ns > 0.3
             then [''high semantic similarity ('' @ toFixed1 (snd ns * 100) @ ''%)''] else [])
            @ (if fst ns \<in> set keywordMatches then [''keyword match in name/columns''] else [])
            @ (if fst ns \<in> set relatedModels then [''related to matched models''] else [])
      in \<lparr>ex_model = fst ns, ex_vector = snd ns,
          ex_keyword = (fst ns \<in> set keywordMatches),
          ex_related = (fst ns \<in> set relatedModels),
          ex_reason = (if join '', '' reasons = [] then ''no match'' else join '', '' reasons)\<rparr>)"

definition explainSelection ::
  "(real \<Rightarrow> string) \<Rightarrow> Provider \<Rightarrow> VectorSearch \<Rightarrow> ModelInfo list \<Rightarrow> string
     \<Rightarrow> error + Explanation list" where
  "explainSelection toFixed1 P vs allModels query =
     (let keywords = extractKeywords query
      in case getScores P vs query of
           Inl e \<Rightarrow> Inl e
         | Inr vectorScores \<Rightarrow>
             (let keywordMatches = set_of_list (map name (findByKeywords allModels keywords))
              in case vs_findRelevant P vs query 10 0 of
                   Inl e \<Rightarrow> Inl e
                 | Inr vectorResults \<Rightarrow>
                     (let selectedModels = set_of_list (map name vectorResults);
                          relatedModels =
                            set_of_list (findRelatedModels allModels selectedModels)
                      in Inr (filter (\<lambda>item. ex_reason item \<noteq> ''no match'')
                                (map (explain_entry toFixed1 keywordMatches relatedModels)
                                   vectorScores)))))"

section \<open>Notions of the specification\<close>

text \<open>
  One hop from a selected name: the targets of the associations of the model of that
  name, the models with an association that targets the name, and the models that the
  foreign references of its columns resolve to.
\<close>

definition one_hop :: "ModelInfo list \<Rightarrow> string \<Rightarrow> string set" where
  "one_hop allModels modelName =
     (case find_first (\<lambda>m. name m = modelName) allModels of
        None \<Rightarrow> {}
      | Some model \<Rightarrow>
          target ` set (associations model)
          \<union> {name other | other.
               other \<in> set allModels \<and> modelName \<in> target ` set (associations other)}
          \<union> {name ref | ref col.
               col \<in> set (columns model) \<and> referencedModel allModels col = Some ref})"

definition related_names :: "ModelInfo list \<Rightarrow> string set \<Rightarrow> string set" where
  "related_names allModels S = (\<Union>n \<in> S. one_hop allModels n)"

text \<open>
  The names of the three signals together: the vector signal, the keyword signal and,
  when enabled and the first two select anything, their one-hop expansion.
\<close>

definition seed_names :: "ModelInfo list \<Rightarrow> string \<Rightarrow> ModelInfo list \<Rightarrow> string set" where
  "seed_names allModels query vectorResults =
     name ` set vectorResults \<union> name ` set (findByKeywords allModels (extractKeywords query))"

definition selected_names :: "ModelInfo list \<Rightarrow> string \<Rightarrow> bool \<Rightarrow> ModelInfo list \<Rightarrow> string set" where
  "selected_names allModels query rel vectorResults =
     seed_names allModels query vectorResults
     \<union> (if rel \<and> seed_names allModels query vectorResults \<noteq> {}
        then related_names allModels (seed_names allModels query vectorResults) else {})"

text \<open>
  An entity \<open>C\<close> is directly reachable from \<open>A\<close>: by an association of \<open>A\<close>, by an
  association that targets \<open>A\<close>, or by a foreign reference of a column of \<open>A\<close>.
\<close>

definition directly_reachable :: "ModelInfo list \<Rightarrow> ModelInfo \<Rightarrow> ModelInfo \<Rightarrow> bool" where
  "directly_reachable allModels A C =
     (name C \<in> target ` set (associations A)
      \<or> name A \<in> target ` set (associations C)
      \<or> (\<exists>col \<in> set (columns A). referencedModel allModels col = Some C))"

text \<open>
  \<^verbatim>\<open>initialize\<close> goes past its guard: the engine is not initialised yet, or the supplied
  set differs in length from the one it holds.
\<close>

definition rebuilds :: "VectorSearch \<Rightarrow> ModelInfo list \<Rightarrow> bool" where
  "rebuilds vs ms = (\<not> (initialized vs \<and> length (vs_models vs) = length ms))"

text \<open>
  An entry of the index is shown by \<^verbatim>\<open>explainSelection\<close>: its score exceeds 0.3, or its
  name is among the keyword matches \<open>K\<close>, or among the related names \<open>R\<close>.
\<close>

definition shown :: "string set \<Rightarrow> string set \<Rightarrow> string \<times> real \<Rightarrow> bool" where
  "shown K R ns = (snd ns > 0.3 \<or> fst ns \<in> K \<or> fst ns \<in> R)"

section \<open>Example data and further notions of the specification\<close>

definition demo_column :: "string \<Rightarrow> (string \<times> string) option \<Rightarrow> ColumnInfo" where
  "demo_column n r =
     \<lparr>col_name = n, col_type = Some ''DataTypes.INTEGER'', primaryKey = None, allowNull = None,
      unique = None, defaultValue = None, enumValues = None, references = r\<rparr>"

definition demo_assoc :: "string \<Rightarrow> string \<Rightarrow> Association" where
  "demo_assoc k t = \<lparr>assoc_type = k, target = t, foreignKey = None, as_alias = None\<rparr>"

definition demo_User :: ModelInfo where
  "demo_User =
     \<lparr>name = ''User'', tableName = ''users'',
      columns = [demo_column ''id'' None, demo_column ''name'' None],
      associations = [], description = None\<rparr>"

definition demo_Order :: ModelInfo where
  "demo_Order =
     \<lparr>name = ''Order'', tableName = ''orders'',
      columns = [demo_column ''id'' None, demo_column ''user_id'' (Some (''User'', ''id''))],
      associations = [demo_assoc ''belongsTo'' ''User''], description = None\<rparr>"

definition demo_provider :: Provider where
  "demo_provider =
     \<lparr>load = True, run = (\<lambda>t. if str_includes t ''Order'' then Some [1, 0] else Some [0, 1])\<rparr>"

definition demo_index :: VectorSearch where
  "demo_index = snd (initialize demo_provider new_VectorSearch [demo_User, demo_Order])"

definition no_options :: Options where
  "no_options = \<lparr>topK = None, threshold = None, includeRelated = None\<rparr>"

definition demo_Customer :: ModelInfo where
  "demo_Customer =
     \<lparr>name = ''Customer'', tableName = ''customers'',
      columns = [demo_column ''id'' None],
      associations = [demo_assoc ''hasMany'' ''Invoice''], description = None\<rparr>"

definition demo_Invoice :: ModelInfo where
  "demo_Invoice =
     \<lparr>name = ''Invoice'', tableName = ''invoices'',
      columns = [demo_column ''id'' None],
      associations = [demo_assoc ''hasMany'' ''Payment''], description = None\<rparr>"

definition demo_Payment :: ModelInfo where
  "demo_Payment =
     \<lparr>name = ''Payment'', tableName = ''payments'',
      columns = [demo_column ''id'' None],
      associations = [], description = None\<rparr>"

definition demo_chain :: "ModelInfo list" where
  "demo_chain = [demo_Payment, demo_Invoice, demo_Customer]"

definition flat_provider :: Provider where
  "flat_provider =
     \<lparr>load = True,
      run = (\<lambda>t. if startsWith t ''Model name'' then Some [1, 0] else Some [0, 1])\<rparr>"

definition chain_index :: VectorSearch where
  "chain_index = snd (initialize flat_provider new_VectorSearch demo_chain)"

definition demo_index1 :: VectorSearch where
  "demo_index1 = snd (initialize demo_provider new_VectorSearch [demo_User])"

text \<open>The entity \<open>User\<close> after an edit of its file that adds a column.\<close>

definition demo_User_edited :: ModelInfo where
  "demo_User_edited =
     \<lparr>name = ''User'', tableName = ''users'',
      columns = [demo_column ''id'' None, demo_column ''name'' None,
                 demo_column ''lastOrderId'' None],
      associations = [], description = None\<rparr>"

definition faint_provider :: Provider where
  "faint_provider =
     \<lparr>load = True,
      run = (\<lambda>t. if startsWith t ''Model name'' then Some [7 / 25, 24 / 25] else Some [1, 0])\<rparr>"

definition faint_index :: VectorSearch where
  "faint_index = snd (initialize faint_provider new_VectorSearch [demo_User])"

definition user_text :: string where
  "user_text = ''sequelize.define('User', { id: { type: DataTypes.INTEGER, primaryKey: true } });''"

definition user_tree :: node where
  "user_tree =
     OtherNode 0 80 [OtherNode 0 80 [CallExpression 0 79 (MemberExpression 0 16
       (Identifier 0 9 ''sequelize'') (Identifier 10 16 ''define'')) [StringLiteral 17
       23 ''User'', ObjectExpression 25 78 [ObjectProperty 27 76 (Identifier 27 29
       ''id'') (ObjectExpression 31 76 [ObjectProperty 33 56 (Identifier 33 37 ''type'')
       (MemberExpression 39 56 (Identifier 39 48 ''DataTypes'') (Identifier 49 56
       ''INTEGER'')), ObjectProperty 58 74 (Identifier 58 68 ''primaryKey'') (OtherNode
       70 74 [])])]]]]"

definition associations_text :: string where
  "associations_text = ''models.User.hasMany(models.Post, { as: 'posts' });''"

definition associations_tree :: node where
  "associations_tree =
     OtherNode 0 50 [OtherNode 0 50 [CallExpression 0 49 (MemberExpression 0 19
       (MemberExpression 0 11 (Identifier 0 6 ''models'') (Identifier 7 11 ''User''))
       (Identifier 12 19 ''hasMany'')) [MemberExpression 20 31 (Identifier 20 26
       ''models'') (Identifier 27 31 ''Post''), ObjectExpression 33 48 [ObjectProperty
       35 46 (Identifier 35 37 ''as'') (StringLiteral 39 46 ''posts'')]]]]"

definition index_text :: string where
  "index_text = ''User.hasOne(Profile); Post.belongsTo(User);''"

definition index_tree :: node where
  "index_tree =
     OtherNode 0 43 [OtherNode 0 21 [CallExpression 0 20 (MemberExpression 0 11
       (Identifier 0 4 ''User'') (Identifier 5 11 ''hasOne'')) [Identifier 12 19
       ''Profile'']], OtherNode 22 43 [CallExpression 22 42 (MemberExpression 22 36
       (Identifier 22 26 ''Post'') (Identifier 27 36 ''belongsTo'')) [Identifier 37 41
       ''User'']]]"

definition plain_text :: string where
  "plain_text = ''module.exports = {};''"

definition plain_tree :: node where
  "plain_tree =
     OtherNode 0 20 [OtherNode 0 20 [OtherNode 0 19 [MemberExpression 0 14 (Identifier 0
       6 ''module'') (Identifier 7 14 ''exports''), ObjectExpression 17 19 []]]]"

text \<open>The results of the parser on the example texts; it rejects every other text.\<close>

definition demo_parse :: parser where
  "demo_parse content =
     (if content = user_text then Some user_tree
      else if content = associations_text then Some associations_tree
      else if content = index_text then Some index_tree
      else if content = plain_text then Some plain_tree
      else None)"

definition demo_explanations :: "Explanation list" where
  "demo_explanations =
     [\<lparr>ex_model = ''Order'', ex_vector = 1, ex_keyword = True, ex_related = False,
       ex_reason = ''high semantic similarity (100.0%), keyword match in name/columns''\<rparr>,
      \<lparr>ex_model = ''User'', ex_vector = 0, ex_keyword = True, ex_related = False,
       ex_reason = ''keyword match in name/columns''\<rparr>]"

text \<open>
  The association list of an entity after the merge: the list before it, then the
  centralized associations of the entity whose key no association before the merge has.
\<close>

definition merged_associations :: "association_map \<Rightarrow> ModelInfo \<Rightarrow> Association list" where
  "merged_associations centralizedAssociations model =
     associations model
     @ filter (\<lambda>a. dedup_key a \<notin> dedup_key ` set (associations model))
         (map_get centralizedAssociations (name model))"

definition demo_belongsTo :: Association where
  "demo_belongsTo =
     \<lparr>assoc_type = ''belongsTo'', target = ''Order'', foreignKey = Some ''orderId'',
      as_alias = Some ''order''\<rparr>"

definition demo_belongsTo_central :: Association where
  "demo_belongsTo_central =
     \<lparr>assoc_type = ''belongsTo'', target = ''Order'', foreignKey = None,
      as_alias = Some ''order''\<rparr>"

definition demo_Item :: ModelInfo where
  "demo_Item =
     \<lparr>name = ''Item'', tableName = ''items'', columns = [demo_column ''id'' None],
      associations = [demo_belongsTo], description = None\<rparr>"

definition demo_central :: association_map where
  "demo_central =
     [(''Item'', [demo_belongsTo_central, demo_assoc ''hasMany'' ''Tag'']),
      (''User'', [demo_assoc ''hasMany'' ''Post'', demo_assoc ''hasMany'' ''Post''])]"

text \<open>The text of the dedicated association file that takes priority, if one exists.\<close>

definition dedicated_content :: "directory \<Rightarrow> string option" where
  "dedicated_content dir =
     (case map_of dir ''associations.js'' of
        Some c \<Rightarrow> Some c
      | None \<Rightarrow> map_of dir ''associations.ts'')"

definition demo_dir :: directory where
  "demo_dir =
     [(''broken.js'', ''const = ;''), (''empty.js'', plain_text), (''User.js'', user_text),
      (''index.js'', index_text), (''associations.js'', associations_text)]"

text \<open>
  A definition file is well formed when it parses and yields at least one column, and
  malformed when it cannot be read or parsing it throws.
\<close>

definition well_formed :: "parser \<Rightarrow> directory \<Rightarrow> string \<Rightarrow> bool" where
  "well_formed parse dir file =
     (case map_of dir file of
        None \<Rightarrow> False
      | Some content \<Rightarrow>
          (case parseColumns parse content of Inl e \<Rightarrow> False | Inr cols \<Rightarrow> cols \<noteq> []))"

definition malformed :: "parser \<Rightarrow> directory \<Rightarrow> string \<Rightarrow> bool" where
  "malformed parse dir file =
     (case map_of dir file of None \<Rightarrow> True | Some content \<Rightarrow> parse content = None)"

definition is_model_diagnostic :: "diagnostic \<Rightarrow> bool" where
  "is_model_diagnostic d = (case d of FailedModelFile f \<Rightarrow> True | other \<Rightarrow> False)"

definition model_files :: "directory \<Rightarrow> string list" where
  "model_files dir = filter is_model_file (map fst dir)"

definition entity_name :: "string \<Rightarrow> string" where
  "entity_name file = basename file (extname file)"

definition pair_dir :: directory where
  "pair_dir =
     [(''User.js'', user_text), (''broken.js'', ''const = ;''), (''Account.ts'', user_text)]"

definition twin_dir :: directory where
  "twin_dir = [(''user.js'', user_text), (''user.ts'', user_text)]"

definition empty_dir :: directory where
  "empty_dir = [(''empty.js'', plain_text)]"

definition demo_tracker :: WatchableSchema where
  "demo_tracker =
     \<lparr>schemaInfo = \<lparr>models = [demo_User], schema = generateSchemaDescription [demo_User]\<rparr>,
      modelsPath = ''/app/models'', watcher = False\<rparr>"


text \<open>
  A column of \<open>A\<close> has a foreign reference that names \<open>C\<close> by its storage name or its
  entity name.
\<close>

definition referenced_by :: "ModelInfo \<Rightarrow> ModelInfo \<Rightarrow> bool" where
  "referenced_by A C =
     (\<exists>col \<in> set (columns A). \<exists>r. references col = Some r
         \<and> (tableName C = fst r \<or> name C = fst r))"

definition twin_U1 :: ModelInfo where
  "twin_U1 =
     \<lparr>name = ''User'', tableName = ''users'', columns = [demo_column ''id'' None],
      associations = [], description = None\<rparr>"

definition twin_U2 :: ModelInfo where
  "twin_U2 =
     \<lparr>name = ''User'', tableName = ''members'', columns = [demo_column ''id'' None],
      associations = [demo_assoc ''hasMany'' ''Post''], description = None\<rparr>"

definition twin_Post :: ModelInfo where
  "twin_Post =
     \<lparr>name = ''Post'', tableName = ''posts'', columns = [demo_column ''id'' None],
      associations = [], description = None\<rparr>"

definition twin_snapshot :: "ModelInfo list" where
  "twin_snapshot = [twin_U1, twin_U2, twin_Post]"

definition twin_index :: VectorSearch where
  "twin_index = snd (initialize flat_provider new_VectorSearch twin_snapshot)"

section \<open>Properties of the retrieval engine\<close>

lemma set_set_add: "set (set_add s x) = insert x (set s)"
  by (auto simp: set_add_def)

lemma set_foldl_set_add: "set (foldl set_add s xs) = set s \<union> set xs"
  by (induction xs arbitrary: s) (auto simp: set_set_add)

lemma set_set_of_list: "set (set_of_list xs) = set xs"
  by (simp add: set_of_list_def set_foldl_set_add)

lemma set_foldl_set_delete: "set (foldl set_delete s xs) = set s - set xs"
  by (induction xs arbitrary: s) (auto simp: set_delete_def)

lemma set_foldl_targets:
  "set (foldl (\<lambda>r assoc. set_add r (target assoc)) r as) = set r \<union> target ` set as"
  by (induction as arbitrary: r) (auto simp: set_set_add)

lemma set_foldl_others:
  "set (foldl (\<lambda>r otherModel.
                 if \<exists>assoc \<in> set (associations otherModel). target assoc = n
                 then set_add r (name otherModel) else r) r ms)
   = set r \<union> {name other | other. other \<in> set ms \<and> n \<in> target ` set (associations other)}"
  by (induction ms arbitrary: r) (auto simp: set_set_add)

lemma set_foldl_refs:
  "set (foldl (\<lambda>r col.
                 case referencedModel ms col of
                   None \<Rightarrow> r
                 | Some m \<Rightarrow> set_add r (name m)) r cs)
   = set r \<union> {name ref | ref col. col \<in> set cs \<and> referencedModel ms col = Some ref}"
  by (induction cs arbitrary: r) (auto simp: set_set_add split: option.splits)

lemma set_related_of: "set (related_of ms r n) = set r \<union> one_hop ms n"
  by (simp add: related_of_def one_hop_def Let_def set_foldl_targets set_foldl_others
      set_foldl_refs Un_assoc split: option.splits)

lemma set_foldl_related_of:
  "set (foldl (related_of ms) r ns) = set r \<union> related_names ms (set ns)"
  by (induction ns arbitrary: r) (auto simp: set_related_of related_names_def)

lemma set_findRelatedModels:
  "set (findRelatedModels ms sel) = related_names ms (set sel) - set sel"
  by (simp add: findRelatedModels_def set_foldl_set_delete set_foldl_related_of)


lemma findRelevant_filter:
  assumes "findRelevant P vs allModels query options = Inr result"
  shows "\<exists>vectorResults.
           vs_findRelevant P vs query (case topK options of None \<Rightarrow> 5 | Some v \<Rightarrow> v)
             (case threshold options of None \<Rightarrow> 0.25 | Some v \<Rightarrow> v) = Inr vectorResults
           \<and> result =
               filter (\<lambda>m. name m \<in> selected_names allModels query
                                      (case includeRelated options of None \<Rightarrow> True | Some v \<Rightarrow> v)
                                      vectorResults)
                 allModels"
proof -
  let ?k = "case topK options of None \<Rightarrow> 5 | Some v \<Rightarrow> v"
  let ?th = "case threshold options of None \<Rightarrow> 0.25 | Some v \<Rightarrow> v"
  let ?rel = "case includeRelated options of None \<Rightarrow> True | Some v \<Rightarrow> v"
  from assms obtain vr where vr: "vs_findRelevant P vs query ?k ?th = Inr vr"
    by (auto simp: findRelevant_def Let_def split: sum.splits)
  let ?s1 = "foldl set_add (set_of_list (map name vr))
               (map name (findByKeywords allModels (extractKeywords query)))"
  let ?s2 = "if ?rel \<and> length ?s1 > 0
             then foldl set_add ?s1 (findRelatedModels allModels ?s1) else ?s1"
  have res: "result = filter (\<lambda>m. name m \<in> set ?s2) allModels"
    using assms vr by (simp add: findRelevant_def Let_def)
  have s1: "set ?s1 = name ` set vr
                      \<union> name ` set (findByKeywords allModels (extractKeywords query))"
    by (simp add: set_foldl_set_add set_set_of_list)
  have ne: "(length ?s1 > 0) = (set ?s1 \<noteq> {})"
    by simp
  have "set ?s2 = selected_names allModels query ?rel vr"
    unfolding selected_names_def seed_names_def s1 [symmetric] ne
    by (auto simp: set_foldl_set_add set_findRelatedModels)
  with res vr show ?thesis by auto
qed


lemma find_first_SomeD: "find_first p xs = Some x \<Longrightarrow> x \<in> set xs \<and> p x"
  by (induction xs) (auto split: if_splits)

lemma find_first_distinct:
  "distinct (map f xs) \<Longrightarrow> x \<in> set xs \<Longrightarrow> find_first (\<lambda>m. f m = f x) xs = Some x"
  by (induction xs) auto

lemma referencedModel_mem: "referencedModel ms col = Some r \<Longrightarrow> r \<in> set ms"
  by (auto simp: referencedModel_def split: option.splits dest: find_first_SomeD)

lemma one_hop_distinct:
  assumes "distinct (map name ms)" "A \<in> set ms" "X \<in> set ms"
  shows "name X \<in> one_hop ms (name A) \<longleftrightarrow> directly_reachable ms A X"
proof -
  have inj: "Y \<in> set ms \<Longrightarrow> name Y = name X \<Longrightarrow> Y = X" for Y
    using assms(1,3) by (simp add: distinct_map inj_on_def)
  have ff: "find_first (\<lambda>m. name m = name A) ms = Some A"
    using assms(1,2) by (rule find_first_distinct)
  have a: "(\<exists>other. name X = name other \<and> other \<in> set ms
              \<and> name A \<in> target ` set (associations other))
           \<longleftrightarrow> name A \<in> target ` set (associations X)"
    using assms(3) inj by metis
  have b: "(\<exists>ref col. name X = name ref \<and> col \<in> set (columns A)
              \<and> referencedModel ms col = Some ref)
           \<longleftrightarrow> (\<exists>col \<in> set (columns A). referencedModel ms col = Some X)"
    using inj referencedModel_mem by metis
  show ?thesis
    unfolding one_hop_def directly_reachable_def ff option.case Un_iff mem_Collect_eq a b
    by blast
qed



lemma referencedModel_referenced_by:
  "col \<in> set (columns A) \<Longrightarrow> referencedModel ms col = Some C \<Longrightarrow> referenced_by A C"
  unfolding referencedModel_def referenced_by_def
  by (cases "references col") (auto dest!: find_first_SomeD)

lemma directly_reachable_by_name:
  "directly_reachable ms A C
   \<Longrightarrow> name C \<in> target ` set (associations A) \<or> name A \<in> target ` set (associations C)
       \<or> referenced_by A C"
  unfolding directly_reachable_def using referencedModel_referenced_by by blast

text \<open>
  C5 (as amended). The relational expansion is gated and goes one hop. With
  \<^verbatim>\<open>includeRelated\<close> off, or with an empty seed set, the result is the snapshot filtered by
  the seed names alone. With the expansion on, in a snapshot whose entity names are
  unique and with a seed set that holds just the entity \<open>A\<close>: every entity that \<open>A\<close>
  associates to is in the result, and an entity is in the result exactly if it is \<open>A\<close> or
  directly reachable from \<open>A\<close>, that is, by an association of \<open>A\<close>, by an association
  that targets \<open>A\<close>, or as the entity that a foreign reference of a column of \<open>A\<close>
  resolves to; such a reference names it by storage name or entity name. So an entity \<open>C\<close>
  reached only through some \<open>B\<close> that \<open>A\<close> associates to stays out.
\<close>

theorem one_hop_expansion:
  assumes run: "findRelevant P vs allModels query options = Inr result"
    and vec: "vs_findRelevant P vs query (case topK options of None \<Rightarrow> 5 | Some v \<Rightarrow> v)
                (case threshold options of None \<Rightarrow> 0.25 | Some v \<Rightarrow> v) = Inr vectorResults"
  shows "(includeRelated options = Some False \<or> seed_names allModels query vectorResults = {}
            \<longrightarrow> result = filter (\<lambda>m. name m \<in> seed_names allModels query vectorResults)
                           allModels)
         \<and> (includeRelated options \<noteq> Some False
              \<and> seed_names allModels query vectorResults = {name A}
              \<and> distinct (map name allModels) \<and> A \<in> set allModels
            \<longrightarrow> (\<forall>B \<in> set allModels. name B \<in> target ` set (associations A)
                     \<longrightarrow> B \<in> set result)
                \<and> (\<forall>C \<in> set allModels.
                     C \<in> set result \<longleftrightarrow> C = A \<or> directly_reachable allModels A C)
                \<and> (\<forall>C \<in> set allModels.
                     C \<in> set result
                     \<longrightarrow> C = A \<or> name C \<in> target ` set (associations A)
                         \<or> name A \<in> target ` set (associations C) \<or> referenced_by A C))"
proof -
  let ?rel = "case includeRelated options of None \<Rightarrow> True | Some v \<Rightarrow> v"
  let ?seed = "seed_names allModels query vectorResults"
  from findRelevant_filter [OF run] vec
  have res: "result = filter (\<lambda>m. name m \<in> selected_names allModels query ?rel vectorResults)
                       allModels"
    by auto
  have gate: "result = filter (\<lambda>m. name m \<in> ?seed) allModels"
    if "includeRelated options = Some False \<or> ?seed = {}"
    using that unfolding res selected_names_def by auto
  have hop: "(\<forall>B \<in> set allModels. name B \<in> target ` set (associations A) \<longrightarrow> B \<in> set result)
             \<and> (\<forall>C \<in> set allModels.
                   C \<in> set result \<longleftrightarrow> C = A \<or> directly_reachable allModels A C)
             \<and> (\<forall>C \<in> set allModels.
                   C \<in> set result
                   \<longrightarrow> C = A \<or> name C \<in> target ` set (associations A)
                       \<or> name A \<in> target ` set (associations C) \<or> referenced_by A C)"
    if on: "includeRelated options \<noteq> Some False" and seed: "?seed = {name A}"
      and d: "distinct (map name allModels)" and A: "A \<in> set allModels"
  proof -
    have rel: "?rel" using on by (cases "includeRelated options") auto
    have sel: "selected_names allModels query ?rel vectorResults
               = {name A} \<union> one_hop allModels (name A)"
      unfolding selected_names_def seed using rel by (simp add: related_names_def)
    have mem: "C \<in> set result \<longleftrightarrow> C = A \<or> directly_reachable allModels A C"
      if C: "C \<in> set allModels" for C
    proof -
      have "name C = name A \<longleftrightarrow> C = A"
        using d A C by (auto simp: distinct_map inj_on_def)
      then show ?thesis
        unfolding res sel using C one_hop_distinct [OF d A C] by auto
    qed
    have B: "\<forall>B \<in> set allModels. name B \<in> target ` set (associations A) \<longrightarrow> B \<in> set result"
      using mem by (auto simp: directly_reachable_def)
    have N: "\<forall>C \<in> set allModels.
               C \<in> set result
               \<longrightarrow> C = A \<or> name C \<in> target ` set (associations A)
                   \<or> name A \<in> target ` set (associations C) \<or> referenced_by A C"
      using mem directly_reachable_by_name by blast
    from B mem N show ?thesis by blast
  qed
  from gate hop show ?thesis by blast
qed


theorem one_hop_expansion_witness:
  "findRelevant flat_provider chain_index demo_chain ''customers'' no_options
     = Inr [demo_Invoice, demo_Customer]
   \<and> seed_names demo_chain ''customers'' [] = {name demo_Customer}
   \<and> distinct (map name demo_chain)
   \<and> name demo_Invoice \<in> target ` set (associations demo_Customer)
   \<and> name demo_Payment \<in> target ` set (associations demo_Invoice)
   \<and> demo_Invoice \<in> set [demo_Invoice, demo_Customer]
   \<and> demo_Payment \<notin> set [demo_Invoice, demo_Customer]
   \<and> \<not> directly_reachable demo_chain demo_Customer demo_Payment"
proof -
  have run: "findRelevant flat_provider chain_index demo_chain ''customers'' no_options
               = Inr [demo_Invoice, demo_Customer]"
    by code_simp
  have vec: "vs_findRelevant flat_provider chain_index ''customers''
               (case topK no_options of None \<Rightarrow> 5 | Some v \<Rightarrow> v)
               (case threshold no_options of None \<Rightarrow> 0.25 | Some v \<Rightarrow> v) = Inr []"
    by code_simp
  have kw: "findByKeywords demo_chain (extractKeywords ''customers'') = [demo_Customer]"
    by code_simp
  have seed: "seed_names demo_chain ''customers'' [] = {name demo_Customer}"
    by (simp add: seed_names_def kw)
  have d: "distinct (map name demo_chain)"
    by (simp add: demo_chain_def demo_Payment_def demo_Invoice_def demo_Customer_def)
  have on: "includeRelated no_options \<noteq> Some False"
    by (simp add: no_options_def)
  have A: "demo_Customer \<in> set demo_chain"
    by (simp add: demo_chain_def)
  have B: "demo_Invoice \<in> set demo_chain"
      "name demo_Invoice \<in> target ` set (associations demo_Customer)"
    by (simp_all add: demo_chain_def demo_Invoice_def demo_Customer_def demo_assoc_def)
  have C: "demo_Payment \<in> set demo_chain" "demo_Payment \<noteq> demo_Customer"
    by (simp_all add: demo_chain_def demo_Payment_def demo_Customer_def)
  have BC: "name demo_Payment \<in> target ` set (associations demo_Invoice)"
    by (simp add: demo_Payment_def demo_Invoice_def demo_assoc_def)
  have nr: "\<not> directly_reachable demo_chain demo_Customer demo_Payment"
    by (simp add: directly_reachable_def demo_Payment_def demo_Customer_def demo_assoc_def
        demo_column_def referencedModel_def)
  from one_hop_expansion [OF run vec, of demo_Customer] seed d on A
  have "(\<forall>B \<in> set demo_chain. name B \<in> target ` set (associations demo_Customer)
            \<longrightarrow> B \<in> set [demo_Invoice, demo_Customer])
        \<and> (\<forall>C \<in> set demo_chain.
              C \<in> set [demo_Invoice, demo_Customer]
              \<longleftrightarrow> C = demo_Customer \<or> directly_reachable demo_chain demo_Customer C)"
    by blast
  with B C nr have "demo_Invoice \<in> set [demo_Invoice, demo_Customer]"
    "demo_Payment \<notin> set [demo_Invoice, demo_Customer]"
    by blast+
  with run seed d B(2) BC nr show ?thesis by blast
qed

text \<open>
  C5 as stated fails in a snapshot with two entities of one name, which the analyzer
  produces from \<^verbatim>\<open>user.js\<close> and \<^verbatim>\<open>user.ts\<close>: the expansion looks a selected name up
  and finds the first entity of that name only. The signals select just the name
  \<^verbatim>\<open>User\<close>; the second entity of that name associates to \<^verbatim>\<open>Post\<close>, and \<^verbatim>\<open>Post\<close> is not
  in the result.
\<close>

theorem one_hop_duplicate_names_counterexample:
  "findRelevant flat_provider twin_index twin_snapshot ''user'' no_options
     = Inr [twin_U1, twin_U2]
   \<and> vs_findRelevant flat_provider twin_index ''user'' 5 0.25 = Inr []
   \<and> map name (findByKeywords twin_snapshot (extractKeywords ''user'')) = [''User'', ''User'']
   \<and> name twin_U2 = ''User''
   \<and> associations twin_U2 = [demo_assoc ''hasMany'' ''Post'']
   \<and> name twin_Post = ''Post''
   \<and> twin_snapshot = [twin_U1, twin_U2, twin_Post]"
  by code_simp

lemma map_set_keys: "fst ` set (map_set kvs k v) = insert k (fst ` set kvs)"
  by (induction kvs k v rule: map_set.induct) auto

lemma map_set_distinct: "distinct (map fst kvs) \<Longrightarrow> distinct (map fst (map_set kvs k v))"
proof (induction kvs k v rule: map_set.induct)
  case (1 k v)
  then show ?case by simp
next
  case (2 k' v' kvs k v)
  then show ?case
    using map_set_keys [of kvs k v] by (auto simp: image_iff)
qed

lemma map_set_subset: "set (map_set kvs k v) \<subseteq> insert (k, v) (set kvs)"
  by (induction kvs k v rule: map_set.induct) auto

lemma embed_models_ok:
  assumes "embed_models P vs ms = (None, vs')"
  shows "embedder vs' = embedder vs \<and> vs_models vs' = vs_models vs
         \<and> initialized vs' = initialized vs
         \<and> fst ` set (modelEmbeddings vs') = fst ` set (modelEmbeddings vs) \<union> name ` set ms
         \<and> (distinct (map fst (modelEmbeddings vs)) \<longrightarrow> distinct (map fst (modelEmbeddings vs')))
         \<and> (\<forall>kv \<in> set (modelEmbeddings vs').
               kv \<in> set (modelEmbeddings vs)
               \<or> (\<exists>m \<in> set ms. fst kv = name m \<and> run P (modelToSearchableText m) = Some (snd kv)))"
  using assms
proof (induction ms arbitrary: vs)
  case Nil
  then show ?case by simp
next
  case (Cons m ms)
  from Cons.prems obtain v where
    e: "embed P vs (modelToSearchableText m) = Inr v"
    and rest: "embed_models P (vs\<lparr>modelEmbeddings := map_set (modelEmbeddings vs) (name m) v\<rparr>) ms
               = (None, vs')"
    by (auto split: sum.splits)
  from e have r: "run P (modelToSearchableText m) = Some v"
    by (auto simp: embed_def split: if_splits option.splits)
  note ih = Cons.IH [OF rest]
  have sub: "set (map_set (modelEmbeddings vs) (name m) v)
             \<subseteq> insert (name m, v) (set (modelEmbeddings vs))"
    by (rule map_set_subset)
  show ?case
  proof (intro conjI)
    show "fst ` set (modelEmbeddings vs') = fst ` set (modelEmbeddings vs) \<union> name ` set (m # ms)"
      using ih by (simp add: map_set_keys)
    show "distinct (map fst (modelEmbeddings vs)) \<longrightarrow> distinct (map fst (modelEmbeddings vs'))"
      using ih by (simp add: map_set_distinct)
    show "\<forall>kv \<in> set (modelEmbeddings vs').
               kv \<in> set (modelEmbeddings vs)
               \<or> (\<exists>m' \<in> set (m # ms). fst kv = name m' \<and> run P (modelToSearchableText m') = Some (snd kv))"
    proof
      fix kv assume "kv \<in> set (modelEmbeddings vs')"
      with ih have "kv \<in> set (map_set (modelEmbeddings vs) (name m) v)
          \<or> (\<exists>m' \<in> set ms. fst kv = name m' \<and> run P (modelToSearchableText m') = Some (snd kv))"
        by simp
      with sub r show "kv \<in> set (modelEmbeddings vs)
               \<or> (\<exists>m' \<in> set (m # ms). fst kv = name m' \<and> run P (modelToSearchableText m') = Some (snd kv))"
        by auto
    qed
  qed (use ih in simp_all)
qed

text \<open>
  Whenever \<^verbatim>\<open>initialize\<close> goes past its guard and succeeds, the index is built from the
  supplied models alone: the engine holds the supplied set, the keys of the index are
  exactly the names of the supplied models, one entry each, and every entry is the
  embedding that the provider computes for the text of a supplied model of that name.
  Nothing of the state before the call remains in the index.
\<close>

lemma initialize_rebuilds:
  assumes "rebuilds vs ms" and "initialize P vs ms = (None, vs')"
  shows "initialized vs' \<and> vs_models vs' = ms
         \<and> fst ` set (modelEmbeddings vs') = name ` set ms
         \<and> distinct (map fst (modelEmbeddings vs'))
         \<and> (\<forall>kv \<in> set (modelEmbeddings vs').
               \<exists>m \<in> set ms. fst kv = name m \<and> run P (modelToSearchableText m) = Some (snd kv))"
proof -
  let ?vs2 = "vs\<lparr>embedder := True, vs_models := ms, modelEmbeddings := []\<rparr>"
  from assms obtain vs3 where
    em: "embed_models P ?vs2 ms = (None, vs3)" and vs': "vs' = vs3\<lparr>initialized := True\<rparr>"
    by (auto simp: initialize_def rebuilds_def Let_def split: if_splits prod.splits option.splits)
  from embed_models_ok [OF em] show ?thesis
    unfolding vs' by simp
qed

text \<open>
  An engine that holds an index over \<open>User\<close> and is given \<open>User\<close> and \<open>Order\<close> rebuilds:
  the lengths differ.
\<close>

lemma initialize_rebuilds_example:
  "rebuilds demo_index1 [demo_User, demo_Order]
   \<and> vs_models demo_index1 = [demo_User]
   \<and> fst (initialize demo_provider demo_index1 [demo_User, demo_Order]) = None
   \<and> modelEmbeddings (snd (initialize demo_provider demo_index1 [demo_User, demo_Order]))
       = [(''User'', [0, 1]), (''Order'', [1, 0])]"
  by code_simp

text \<open>
  C7. The claim asks that every call of \<^verbatim>\<open>initialize\<close> rebuilds the index from the
  supplied models. The code does so only past its guard; a call with a set of the same
  length as the one held returns at once. This is the path of a reload after an edit that
  keeps the number of entities: the engine holds an index over \<open>User\<close>, the file of
  \<open>User\<close> gets a new column, and \<^verbatim>\<open>initialize\<close> with the edited entity leaves the engine
  as it was. It still holds the entity as it was before the edit, and the index still
  holds the embedding of the old text, where the provider gives another one for the new
  text.
\<close>

theorem initialize_same_length_stale:
  "initialized demo_index1
   \<and> vs_models demo_index1 = [demo_User]
   \<and> modelEmbeddings demo_index1 = [(''User'', [0, 1])]
   \<and> columns demo_User_edited = columns demo_User @ [demo_column ''lastOrderId'' None]
   \<and> initialize demo_provider demo_index1 [demo_User_edited] = (None, demo_index1)
   \<and> run demo_provider (modelToSearchableText demo_User_edited) = Some [1, 0]"
  by code_simp

lemma explain_entry_reason:
  "ex_reason (explain_entry toFixed1 kl rl ns) \<noteq> ''no match'' \<longleftrightarrow> shown (set kl) (set rl) ns"
  by (simp add: explain_entry_def shown_def Let_def)

lemma getScores_ordered:
  assumes "getScores P vs query = Inr scores"
  shows "sorted_wrt (\<lambda>a b. snd b \<le> snd a) scores
         \<and> length scores = length (modelEmbeddings vs)
         \<and> fst ` set scores = fst ` set (modelEmbeddings vs)"
proof -
  from assms obtain q where s: "scores = sort_scores (score_all vs q)"
    by (auto simp: getScores_def split: sum.splits)
  have "sorted (map (\<lambda>s. - snd s) scores)"
    unfolding s sort_scores_def by (rule sorted_sort_key)
  then have a: "sorted_wrt (\<lambda>a b. snd b \<le> snd a) scores"
    by (simp add: sorted_map)
  have b: "length scores = length (modelEmbeddings vs)"
    unfolding s sort_scores_def score_all_def by simp
  have "fst ` set (score_all vs q) = fst ` set (modelEmbeddings vs)"
    unfolding score_all_def by force
  then have c: "fst ` set scores = fst ` set (modelEmbeddings vs)"
    unfolding s sort_scores_def by simp
  from a b c show ?thesis by blast
qed

lemma entries_ordered:
  assumes "map (\<lambda>e. (ex_model e, ex_vector e)) entries = filter p scores"
    and "sorted_wrt (\<lambda>a b. snd b \<le> snd a) scores"
  shows "sorted_wrt (\<lambda>e f. ex_vector f \<le> ex_vector e) entries"
proof -
  from assms(2) have "sorted_wrt (\<lambda>a b. snd b \<le> snd a) (filter p scores)"
    by (rule sorted_wrt_filter)
  then have "sorted_wrt (\<lambda>a b. snd b \<le> snd a) (map (\<lambda>e. (ex_model e, ex_vector e)) entries)"
    by (simp only: assms(1))
  then show ?thesis
    by (simp add: sorted_wrt_map)
qed

text \<open>
  C8 (as amended). Whenever \<^verbatim>\<open>explainSelection\<close> returns, the scores of \<^verbatim>\<open>getScores\<close>
  are the entries of the embedding index, one each, in descending order of score, and the
  entries returned are, in that order, exactly those whose score exceeds 0.3, or whose
  name matches a keyword, or whose name is in the one-hop expansion of the ten best vector
  results of score at least 0 (the expansion leaves those ten out). Each entry carries its
  score, the two flags and a reason text other than \<^verbatim>\<open>no match\<close>.
\<close>

theorem explainSelection_entries:
  assumes "explainSelection toFixed1 P vs allModels query = Inr entries"
  shows "\<exists>scores vectorResults K R.
           getScores P vs query = Inr scores
           \<and> vs_findRelevant P vs query 10 0 = Inr vectorResults
           \<and> K = name ` set (findByKeywords allModels (extractKeywords query))
           \<and> R = related_names allModels (name ` set vectorResults) - name ` set vectorResults
           \<and> sorted_wrt (\<lambda>a b. snd b \<le> snd a) scores
           \<and> length scores = length (modelEmbeddings vs)
           \<and> fst ` set scores = fst ` set (modelEmbeddings vs)
           \<and> map (\<lambda>e. (ex_model e, ex_vector e)) entries = filter (shown K R) scores
           \<and> sorted_wrt (\<lambda>e f. ex_vector f \<le> ex_vector e) entries
           \<and> (\<forall>e \<in> set entries.
                 ex_keyword e = (ex_model e \<in> K) \<and> ex_related e = (ex_model e \<in> R)
                 \<and> ex_reason e \<noteq> ''no match'')"
proof -
  from assms obtain scores vr where
    sc: "getScores P vs query = Inr scores" and
    vr: "vs_findRelevant P vs query 10 0 = Inr vr"
    by (auto simp: explainSelection_def Let_def split: sum.splits)
  let ?kl = "set_of_list (map name (findByKeywords allModels (extractKeywords query)))"
  let ?rl = "set_of_list (findRelatedModels allModels (set_of_list (map name vr)))"
  let ?K = "name ` set (findByKeywords allModels (extractKeywords query))"
  let ?R = "related_names allModels (name ` set vr) - name ` set vr"
  have K: "set ?kl = ?K" by (simp add: set_set_of_list)
  have R: "set ?rl = ?R" by (simp add: set_set_of_list set_findRelatedModels)
  have en: "entries = filter (\<lambda>item. ex_reason item \<noteq> ''no match'')
                        (map (explain_entry toFixed1 ?kl ?rl) scores)"
    using assms sc vr by (simp add: explainSelection_def Let_def)
  have en': "entries = map (explain_entry toFixed1 ?kl ?rl) (filter (shown ?K ?R) scores)"
    unfolding en filter_map by (simp add: comp_def explain_entry_reason K R)
  have m: "map (\<lambda>e. (ex_model e, ex_vector e)) entries = filter (shown ?K ?R) scores"
    unfolding en' by (simp add: comp_def explain_entry_def Let_def)
  note ord = getScores_ordered [OF sc]
  from ord have so: "sorted_wrt (\<lambda>a b. snd b \<le> snd a) scores" by blast
  have eo: "sorted_wrt (\<lambda>e f. ex_vector f \<le> ex_vector e) entries"
    using m so by (rule entries_ordered)
  have f: "\<forall>e \<in> set entries.
             ex_keyword e = (ex_model e \<in> ?K) \<and> ex_related e = (ex_model e \<in> ?R)
             \<and> ex_reason e \<noteq> ''no match''"
  proof
    fix e assume "e \<in> set entries"
    then obtain ns where e: "e = explain_entry toFixed1 ?kl ?rl ns" and
      "ex_reason e \<noteq> ''no match''"
      unfolding en by auto
    then show "ex_keyword e = (ex_model e \<in> ?K) \<and> ex_related e = (ex_model e \<in> ?R)
             \<and> ex_reason e \<noteq> ''no match''"
      using K R by (simp add: explain_entry_def Let_def)
  qed
  from sc vr ord m eo f show ?thesis by blast
qed

theorem explainSelection_entries_witness:
  "explainSelection (\<lambda>x. ''100.0'') demo_provider demo_index [demo_User, demo_Order]
     ''Order user'' = Inr demo_explanations
   \<and> map fst (modelEmbeddings demo_index) = [''User'', ''Order'']
   \<and> map (\<lambda>e. (ex_model e, ex_vector e)) demo_explanations = [(''Order'', 1), (''User'', 0)]
   \<and> (\<exists>scores vectorResults K R.
         getScores demo_provider demo_index ''Order user'' = Inr scores
         \<and> vs_findRelevant demo_provider demo_index ''Order user'' 10 0 = Inr vectorResults
         \<and> K = name ` set (findByKeywords [demo_User, demo_Order] (extractKeywords ''Order user''))
         \<and> R = related_names [demo_User, demo_Order] (name ` set vectorResults)
               - name ` set vectorResults
         \<and> sorted_wrt (\<lambda>a b. snd b \<le> snd a) scores
         \<and> length scores = length (modelEmbeddings demo_index)
         \<and> fst ` set scores = fst ` set (modelEmbeddings demo_index)
         \<and> map (\<lambda>e. (ex_model e, ex_vector e)) demo_explanations = filter (shown K R) scores
         \<and> sorted_wrt (\<lambda>e f. ex_vector f \<le> ex_vector e) demo_explanations
         \<and> (\<forall>e \<in> set demo_explanations.
               ex_keyword e = (ex_model e \<in> K) \<and> ex_related e = (ex_model e \<in> R)
               \<and> ex_reason e \<noteq> ''no match''))"
proof -
  have run: "explainSelection (\<lambda>x. ''100.0'') demo_provider demo_index [demo_User, demo_Order]
               ''Order user'' = Inr demo_explanations"
    by code_simp
  have idx: "map fst (modelEmbeddings demo_index) = [''User'', ''Order'']"
    by code_simp
  have ent: "map (\<lambda>e. (ex_model e, ex_vector e)) demo_explanations
               = [(''Order'', 1), (''User'', 0)]"
    by (simp add: demo_explanations_def)
  from explainSelection_entries [OF run] run idx ent show ?thesis
    by (intro conjI)
qed

text \<open>
  C8 as stated fails: an entity whose score is 0.28, which no keyword matches and which
  is not related, has a nonzero vector score and no entry.
\<close>

theorem explainSelection_counterexample:
  "getScores faint_provider faint_index ''zzz'' = Inr [(''User'', 7 / 25)]
   \<and> explainSelection (\<lambda>x. ''28.0'') faint_provider faint_index [demo_User] ''zzz'' = Inr []"
  by code_simp

section \<open>Properties of the analyzer\<close>

lemma merge_model_eq:
  "merge_model central model = model\<lparr>associations := merged_associations central model\<rparr>"
  by (auto simp: merge_model_def merged_associations_def map_get_def Let_def filter_empty_conv
      split: option.splits)

text \<open>
  C3 (as amended). \<^verbatim>\<open>mergeCentralizedAssociations\<close> leaves every entity as it is but for
  its association list, which becomes the list it had followed by those centralized
  associations of the entity, in their order, whose key
  \<^verbatim>\<open>type-target-alias\<close> (the alias empty when absent) is the key of no association that the
  entity had before the merge. So nothing is replaced or removed, and for the key of an
  association declared in the file the number of associations with that key stays what it
  was: a declaration in the file and a centralized one with the same key leave one.
\<close>

theorem merge_is_additive:
  "mergeCentralizedAssociations ms central
     = map (\<lambda>model. model\<lparr>associations := merged_associations central model\<rparr>) ms
   \<and> (\<forall>model \<in> set ms. \<forall>a \<in> set (associations model).
         length (filter (\<lambda>b. dedup_key b = dedup_key a) (merged_associations central model))
         = length (filter (\<lambda>b. dedup_key b = dedup_key a) (associations model)))"
proof (intro conjI ballI)
  show "mergeCentralizedAssociations ms central
          = map (\<lambda>model. model\<lparr>associations := merged_associations central model\<rparr>) ms"
    by (simp add: mergeCentralizedAssociations_def merge_model_eq)
next
  fix model :: ModelInfo and a
  assume a: "a \<in> set (associations model)"
  have "filter (\<lambda>b. dedup_key b = dedup_key a)
          (filter (\<lambda>a. dedup_key a \<notin> dedup_key ` set (associations model))
             (map_get central (name model))) = []"
    using a by (auto simp: filter_empty_conv)
  then show "length (filter (\<lambda>b. dedup_key b = dedup_key a) (merged_associations central model))
         = length (filter (\<lambda>b. dedup_key b = dedup_key a) (associations model))"
    unfolding merged_associations_def filter_append by simp
qed

theorem merge_is_additive_witness:
  "map associations (mergeCentralizedAssociations [demo_Item] demo_central)
     = [[demo_belongsTo, demo_assoc ''hasMany'' ''Tag'']]
   \<and> dedup_key demo_belongsTo = dedup_key demo_belongsTo_central
   \<and> length (filter (\<lambda>b. dedup_key b = dedup_key demo_belongsTo)
               (merged_associations demo_central demo_Item)) = 1"
proof -
  note inst = merge_is_additive [of "[demo_Item]" demo_central]
  have a: "demo_belongsTo \<in> set (associations demo_Item)"
    by (simp add: demo_Item_def)
  have m: "merged_associations demo_central demo_Item
             = [demo_belongsTo, demo_assoc ''hasMany'' ''Tag'']"
    by code_simp
  have k: "dedup_key demo_belongsTo = dedup_key demo_belongsTo_central"
    by code_simp
  have c: "length (filter (\<lambda>b. dedup_key b = dedup_key demo_belongsTo) (associations demo_Item)) = 1"
    by (simp add: demo_Item_def)
  from inst have "map associations (mergeCentralizedAssociations [demo_Item] demo_central)
                   = [merged_associations demo_central demo_Item]"
    by simp
  moreover from inst a
  have "length (filter (\<lambda>b. dedup_key b = dedup_key demo_belongsTo)
                  (merged_associations demo_central demo_Item))
        = length (filter (\<lambda>b. dedup_key b = dedup_key demo_belongsTo) (associations demo_Item))"
    by simp
  ultimately show ?thesis
    using m k c by simp
qed

text \<open>
  C3 as stated fails: the keys are compared with those of the associations that the entity
  had before the merge only. Two centralized declarations with one key, on an entity
  without that key, are both appended, the second although the first, merged in this
  pass, shares its key.
\<close>

theorem merge_duplicates_counterexample:
  "map associations (mergeCentralizedAssociations [demo_User] demo_central)
     = [[demo_assoc ''hasMany'' ''Post'', demo_assoc ''hasMany'' ''Post'']]"
  by code_simp

lemma map_set_fresh: "k \<notin> fst ` set m \<Longrightarrow> map_set m k v = m @ [(k, v)]"
  by (induction m k v rule: map_set.induct) auto

lemma map_get_fresh: "k \<notin> fst ` set m \<Longrightarrow> map_get m k = []"
proof -
  assume "k \<notin> fst ` set m"
  then have "map_of m k = None"
    by (simp add: map_of_eq_None_iff)
  then show ?thesis
    by (simp add: map_get_def)
qed

lemma merge_file_distinct: "distinct (map fst (m @ fa)) \<Longrightarrow> merge_file m fa = m @ fa"
proof (induction fa arbitrary: m)
  case Nil
  then show ?case by (simp add: merge_file_def)
next
  case (Cons ka fa)
  obtain k as where ka: "ka = (k, as)" by (cases ka)
  from Cons.prems have fresh: "k \<notin> fst ` set m"
    by (auto simp: ka)
  from Cons.prems have d: "distinct (map fst ((m @ [(k, as)]) @ fa))"
    by (simp add: ka)
  have "merge_file m (ka # fa) = merge_file (m @ [(k, as)]) fa"
    by (simp add: merge_file_def ka map_set_fresh [OF fresh] map_get_fresh [OF fresh])
  also have "\<dots> = (m @ [(k, as)]) @ fa"
    by (rule Cons.IH [OF d])
  finally show ?case by (simp add: ka)
qed

lemma foldl_map_push_distinct:
  "distinct (map fst m) \<Longrightarrow> distinct (map fst (foldl map_push m xs))"
  by (induction xs arbitrary: m) (simp_all add: map_push_def map_set_distinct)

lemma parseCentralizedAssociationFile_distinct:
  "distinct (map fst (snd (parseCentralizedAssociationFile parse content)))"
  by (simp add: parseCentralizedAssociationFile_def foldl_map_push_distinct split: option.splits)

lemma merge_parsed_file:
  "parseCentralizedAssociationFile parse content = (warned, fa) \<Longrightarrow> merge_file [] fa = fa"
  using parseCentralizedAssociationFile_distinct [of parse content]
    merge_file_distinct [of "[]" fa] by simp

text \<open>
  C2. If a dedicated association file exists (\<^verbatim>\<open>associations.js\<close>, else
  \<^verbatim>\<open>associations.ts\<close>), the map that \<^verbatim>\<open>parseCentralizedAssociations\<close> returns is the map
  parsed from the text of that file, and every directory with that dedicated text gives
  the same map, whatever its index files declare.
\<close>

theorem dedicated_file_priority:
  assumes "dedicated_content dir = Some content"
  shows "parseCentralizedAssociations parse dir = parseCentralizedAssociationFile parse content
         \<and> (\<forall>dir'. dedicated_content dir' = Some content
               \<longrightarrow> parseCentralizedAssociations parse dir'
                   = parseCentralizedAssociations parse dir)"
proof -
  have one: "parseCentralizedAssociations parse d = parseCentralizedAssociationFile parse content"
    if "dedicated_content d = Some content" for d
  proof -
    obtain warned fa where p: "parseCentralizedAssociationFile parse content = (warned, fa)"
      by (cases "parseCentralizedAssociationFile parse content")
    from that show ?thesis
      by (auto simp: parseCentralizedAssociations_def dedicated_content_def p
          merge_parsed_file [OF p] split: option.splits)
  qed
  from one [OF assms] one show ?thesis by simp
qed

theorem dedicated_file_priority_witness:
  "dedicated_content demo_dir = Some associations_text
   \<and> map_of demo_dir ''index.js'' = Some index_text
   \<and> map fst (snd (parseCentralizedAssociationFile demo_parse index_text)) = [''User'', ''Post'']
   \<and> parseCentralizedAssociations demo_parse demo_dir
       = ([], [(''User'', [\<lparr>assoc_type = ''hasMany'', target = ''Post'', foreignKey = None,
                             as_alias = Some ''posts''\<rparr>])])"
proof -
  have d: "dedicated_content demo_dir = Some associations_text"
    by code_simp
  have i: "map_of demo_dir ''index.js'' = Some index_text"
    by code_simp
  have x: "map fst (snd (parseCentralizedAssociationFile demo_parse index_text))
             = [''User'', ''Post'']"
    by code_simp
  have f: "parseCentralizedAssociationFile demo_parse associations_text
             = ([], [(''User'', [\<lparr>assoc_type = ''hasMany'', target = ''Post'', foreignKey = None,
                                   as_alias = Some ''posts''\<rparr>])])"
    by code_simp
  from dedicated_file_priority [OF d, of demo_parse] f d i x show ?thesis
    by simp
qed

lemma parseColumns_Inl: "(parseColumns parse content = Inl e) \<longleftrightarrow> (parse content = None \<and> e = ParseError)"
  by (auto simp: parseColumns_def split: option.splits)

lemma scan_file_cases:
  "scan_file parse dir (w, ms) file =
     (if malformed parse dir file then (w @ [FailedModelFile file], ms)
      else if well_formed parse dir file
      then (w, ms @ [\<lparr>name = entity_name file,
                       tableName = (case tableName_match (the (map_of dir file)) of
                                      None \<Rightarrow> toLowerCase (entity_name file) | Some t \<Rightarrow> t),
                       columns = projr (parseColumns parse (the (map_of dir file))),
                       associations = parseAssociations (the (map_of dir file)),
                       description = None\<rparr>])
      else (w, ms))"
proof (cases "map_of dir file")
  case None
  then show ?thesis by (simp add: scan_file_def malformed_def)
next
  case (Some content)
  show ?thesis
  proof (cases "parseColumns parse content")
    case (Inl e)
    then have "parse content = None" by (simp add: parseColumns_Inl)
    with Some Inl show ?thesis
      by (simp add: scan_file_def malformed_def parseModelFile_def Let_def)
  next
    case (Inr cols)
    then have "parse content \<noteq> None"
      by (auto simp: parseColumns_def split: option.splits)
    with Some Inr show ?thesis
      unfolding entity_name_def
      by (simp add: scan_file_def malformed_def well_formed_def parseModelFile_def Let_def)
  qed
qed

lemma scan_files:
  "\<exists>found. foldl (scan_file parse dir) (w, ms) files
            = (w @ map FailedModelFile (filter (malformed parse dir) files), ms @ found)
          \<and> map name found = map entity_name (filter (well_formed parse dir) files)"
proof (induction files arbitrary: w ms)
  case Nil
  then show ?case by simp
next
  case (Cons f files)
  have nm: "well_formed parse dir f \<Longrightarrow> \<not> malformed parse dir f"
    by (auto simp: well_formed_def malformed_def parseColumns_def split: option.splits)
  show ?case
  proof (cases "malformed parse dir f")
    case True
    with nm have nw: "\<not> well_formed parse dir f" by blast
    from Cons.IH [of "w @ [FailedModelFile f]" ms] True nw show ?thesis
      by (simp add: scan_file_cases)
  next
    case False
    show ?thesis
    proof (cases "well_formed parse dir f")
      case True
      let ?m = "\<lparr>name = entity_name f,
                 tableName = (case tableName_match (the (map_of dir f)) of
                                None \<Rightarrow> toLowerCase (entity_name f) | Some t \<Rightarrow> t),
                 columns = projr (parseColumns parse (the (map_of dir f))),
                 associations = parseAssociations (the (map_of dir f)),
                 description = None\<rparr>"
      from Cons.IH [of w "ms @ [?m]"] obtain found where
        f: "foldl (scan_file parse dir) (w, ms @ [?m]) files
              = (w @ map FailedModelFile (filter (malformed parse dir) files),
                 (ms @ [?m]) @ found)"
        and n: "map name found = map entity_name (filter (well_formed parse dir) files)"
        by blast
      show ?thesis
        apply (rule exI [of _ "?m # found"])
        using f n True False by (simp add: scan_file_cases)
    next
      case nw: False
      from Cons.IH [of w ms] False nw show ?thesis
        by (simp add: scan_file_cases)
    qed
  qed
qed

lemma merge_names: "map name (mergeCentralizedAssociations ms central) = map name ms"
  by (simp add: mergeCentralizedAssociations_def merge_model_eq comp_def)

lemma parseCentralizedAssociations_warnings:
  "filter is_model_diagnostic (fst (parseCentralizedAssociations parse dir)) = []"
proof -
  have one: "filter is_model_diagnostic x = []"
    if "parseCentralizedAssociationFile parse c = (x, y)" for c x y
    using that
    by (auto simp: parseCentralizedAssociationFile_def is_model_diagnostic_def split: option.splits)
  have idx: "filter is_model_diagnostic (fst (parse_index_files parse dir acc names))
             = filter is_model_diagnostic (fst acc)" for acc names
  proof (induction names arbitrary: acc)
    case Nil
    then show ?case by simp
  next
    case (Cons n names)
    obtain wa am where acc: "acc = (wa, am)" by (cases acc)
    show ?case
      unfolding acc
      by (auto simp: Cons.IH split: option.splits prod.splits dest: one)
  qed
  have ded: "parse_dedicated_files parse dir names = Some r
             \<Longrightarrow> filter is_model_diagnostic (fst r) = []" for names r
  proof (induction names)
    case Nil
    then show ?case by simp
  next
    case (Cons n names)
    then show ?case
      by (auto split: option.splits prod.splits dest: one)
  qed
  show ?thesis
  proof (cases "parse_dedicated_files parse dir [''associations.js'', ''associations.ts'']")
    case None
    then show ?thesis
      unfolding parseCentralizedAssociations_def by (simp only: option.case idx) simp
  next
    case (Some r)
    from ded [OF Some] Some show ?thesis
      unfolding parseCentralizedAssociations_def by (simp only: option.case)
  qed
qed

lemma analyzeProject_outcome:
  assumes "analyzeProject parse (Some dir) = (warnings, result)"
  shows "filter is_model_diagnostic warnings
           = map FailedModelFile (filter (malformed parse dir) (model_files dir))"
    and "filter (well_formed parse dir) (model_files dir) \<noteq> []
         \<Longrightarrow> \<exists>s. result = Inr s
                 \<and> map name (models s)
                     = map entity_name (filter (well_formed parse dir) (model_files dir))
                 \<and> schema s = generateSchemaDescription (models s)"
    and "filter (well_formed parse dir) (model_files dir) = []
         \<Longrightarrow> result = Inl (if model_files dir = [] then NoModelFiles else NoValidModels)"
proof -
  obtain found where
    sc: "foldl (scan_file parse dir) ([], []) (model_files dir)
           = (map FailedModelFile (filter (malformed parse dir) (model_files dir)), found)"
    and nm: "map name found = map entity_name (filter (well_formed parse dir) (model_files dir))"
    using scan_files [of parse dir "[]" "[]" "model_files dir"] by auto
  have fm: "filter is_model_diagnostic (map FailedModelFile xs) = map FailedModelFile xs" for xs
    by (induction xs) (simp_all add: is_model_diagnostic_def)
  obtain cw cm where c: "parseCentralizedAssociations parse dir = (cw, cm)"
    by (cases "parseCentralizedAssociations parse dir")
  have cw: "filter is_model_diagnostic cw = []"
    using parseCentralizedAssociations_warnings [of parse dir] c by simp
  have fe: "found = [] \<longleftrightarrow> filter (well_formed parse dir) (model_files dir) = []"
    using nm by (metis map_is_Nil_conv)
  have unfold: "analyzeProject parse (Some dir) =
      (if model_files dir = [] then ([], Inl NoModelFiles)
       else if found = []
            then (map FailedModelFile (filter (malformed parse dir) (model_files dir)),
                  Inl NoValidModels)
            else (map FailedModelFile (filter (malformed parse dir) (model_files dir)) @ cw,
                  Inr \<lparr>models = mergeCentralizedAssociations found cm,
                       schema = generateSchemaDescription
                                  (mergeCentralizedAssociations found cm)\<rparr>))"
    using sc c by (simp add: analyzeProject_def model_files_def [symmetric] Let_def)
  show "filter is_model_diagnostic warnings
           = map FailedModelFile (filter (malformed parse dir) (model_files dir))"
    using assms unfolding unfold by (auto simp: fm cw split: if_splits)
  show "\<exists>s. result = Inr s
                 \<and> map name (models s)
                     = map entity_name (filter (well_formed parse dir) (model_files dir))
                 \<and> schema s = generateSchemaDescription (models s)"
    if "filter (well_formed parse dir) (model_files dir) \<noteq> []"
    using assms that fe unfolding unfold by (auto simp: merge_names nm split: if_splits)
  show "result = Inl (if model_files dir = [] then NoModelFiles else NoValidModels)"
    if "filter (well_formed parse dir) (model_files dir) = []"
    using assms that fe unfolding unfold by (auto split: if_splits)
qed

lemma scan_file_no_columns:
  "map_of dir f = Some content \<Longrightarrow> parseColumns parse content = Inr []
   \<Longrightarrow> scan_file parse dir acc f = acc"
  by (simp add: scan_file_def parseModelFile_def Let_def)

text \<open>
  C4 (as amended). For a models directory with \<open>N\<close> well-formed and \<open>M\<close> malformed
  definition files, \<^verbatim>\<open>analyzeProject\<close> writes exactly \<open>M\<close> warnings about definition
  files, whatever else happens: no failure of a file ends the scan. If \<open>N\<close> is positive it
  returns a snapshot of exactly \<open>N\<close> entities. If \<open>N\<close> is zero it throws: there are no
  definition files, or none of them is valid. A file that parses without a recognised
  column leaves the entities and the warnings of the scan as they are.
\<close>

theorem analyzeProject_counts:
  assumes "analyzeProject parse (Some dir) = (warnings, result)"
  shows "length (filter is_model_diagnostic warnings)
           = length (filter (malformed parse dir) (model_files dir))
         \<and> (length (filter (well_formed parse dir) (model_files dir)) > 0
              \<longrightarrow> (\<exists>s. result = Inr s
                       \<and> length (models s)
                           = length (filter (well_formed parse dir) (model_files dir))))
         \<and> (length (filter (well_formed parse dir) (model_files dir)) = 0
              \<longrightarrow> result = Inl (if model_files dir = [] then NoModelFiles else NoValidModels))
         \<and> (\<forall>f content acc. map_of dir f = Some content \<and> parseColumns parse content = Inr []
              \<longrightarrow> scan_file parse dir acc f = acc)"
proof (intro conjI)
  show "length (filter is_model_diagnostic warnings)
           = length (filter (malformed parse dir) (model_files dir))"
    using analyzeProject_outcome(1) [OF assms] by simp
  show "length (filter (well_formed parse dir) (model_files dir)) > 0
              \<longrightarrow> (\<exists>s. result = Inr s
                       \<and> length (models s)
                           = length (filter (well_formed parse dir) (model_files dir)))"
  proof
    assume "length (filter (well_formed parse dir) (model_files dir)) > 0"
    then have "filter (well_formed parse dir) (model_files dir) \<noteq> []" by auto
    from analyzeProject_outcome(2) [OF assms this] obtain s where
      "result = Inr s"
      "map name (models s) = map entity_name (filter (well_formed parse dir) (model_files dir))"
      by blast
    then show "\<exists>s. result = Inr s
                       \<and> length (models s)
                           = length (filter (well_formed parse dir) (model_files dir))"
      by (metis length_map)
  qed
  show "length (filter (well_formed parse dir) (model_files dir)) = 0
              \<longrightarrow> result = Inl (if model_files dir = [] then NoModelFiles else NoValidModels)"
    using analyzeProject_outcome(3) [OF assms] by simp
  show "\<forall>f content acc. map_of dir f = Some content \<and> parseColumns parse content = Inr []
              \<longrightarrow> scan_file parse dir acc f = acc"
    by (simp add: scan_file_no_columns)
qed

theorem analyzeProject_counts_witness:
  "model_files demo_dir = [''broken.js'', ''empty.js'', ''User.js'']
   \<and> filter (malformed demo_parse demo_dir) (model_files demo_dir) = [''broken.js'']
   \<and> filter (well_formed demo_parse demo_dir) (model_files demo_dir) = [''User.js'']
   \<and> fst (analyzeProject demo_parse (Some demo_dir)) = [FailedModelFile ''broken.js'']
   \<and> (\<exists>s. snd (analyzeProject demo_parse (Some demo_dir)) = Inr s \<and> length (models s) = 1)"
proof -
  have mf: "model_files demo_dir = [''broken.js'', ''empty.js'', ''User.js'']"
    by code_simp
  have bad: "filter (malformed demo_parse demo_dir) [''broken.js'', ''empty.js'', ''User.js'']
               = [''broken.js'']"
    by code_simp
  have good: "filter (well_formed demo_parse demo_dir) [''broken.js'', ''empty.js'', ''User.js'']
                = [''User.js'']"
    by code_simp
  have w: "fst (analyzeProject demo_parse (Some demo_dir)) = [FailedModelFile ''broken.js'']"
    by code_simp
  have run: "analyzeProject demo_parse (Some demo_dir)
               = (fst (analyzeProject demo_parse (Some demo_dir)),
                  snd (analyzeProject demo_parse (Some demo_dir)))"
    by simp
  from analyzeProject_counts [OF run] mf bad good w show ?thesis
    by simp
qed

text \<open>
  C4 as stated fails where no file is well formed: a directory whose one definition file
  has no recognised column has no malformed file, and \<^verbatim>\<open>analyzeProject\<close> throws instead of
  yielding no entities.
\<close>

theorem analyzeProject_counts_counterexample:
  "model_files empty_dir = [''empty.js'']
   \<and> parseColumns demo_parse plain_text = Inr []
   \<and> analyzeProject demo_parse (Some empty_dir) = ([], Inl NoValidModels)"
  by code_simp

text \<open>
  C9 (as amended). The entity names of a snapshot are the names, without extension, of
  the well-formed definition files in the order of the scan. So they are unique exactly
  if no two well-formed definition files have the same name without extension, and in
  particular whenever no two definition files of the directory have.
\<close>

theorem entity_names_unique:
  assumes "analyzeProject parse (Some dir) = (warnings, Inr s)"
  shows "map name (models s)
           = map entity_name (filter (well_formed parse dir) (model_files dir))
         \<and> (distinct (map name (models s))
              \<longleftrightarrow> distinct (map entity_name
                              (filter (well_formed parse dir) (model_files dir))))
         \<and> (distinct (map entity_name (model_files dir)) \<longrightarrow> distinct (map name (models s)))"
proof -
  have ne: "filter (well_formed parse dir) (model_files dir) \<noteq> []"
    using analyzeProject_outcome(3) [OF assms] by auto
  from analyzeProject_outcome(2) [OF assms ne]
  have n: "map name (models s)
             = map entity_name (filter (well_formed parse dir) (model_files dir))"
    by auto
  have "distinct (map entity_name (model_files dir)) \<Longrightarrow> distinct (map name (models s))"
    unfolding n by (simp add: distinct_map_filter)
  with n show ?thesis by simp
qed

theorem entity_names_unique_witness:
  "model_files pair_dir = [''User.js'', ''broken.js'', ''Account.ts'']
   \<and> filter (well_formed demo_parse pair_dir) (model_files pair_dir)
       = [''User.js'', ''Account.ts'']
   \<and> distinct (map entity_name (model_files pair_dir))
   \<and> (\<exists>s. snd (analyzeProject demo_parse (Some pair_dir)) = Inr s
          \<and> map name (models s) = [''User'', ''Account'']
          \<and> distinct (map name (models s)))"
proof -
  have mf: "model_files pair_dir = [''User.js'', ''broken.js'', ''Account.ts'']"
    by code_simp
  have wf: "filter (well_formed demo_parse pair_dir) [''User.js'', ''broken.js'', ''Account.ts'']
              = [''User.js'', ''Account.ts'']"
    by code_simp
  have en: "map entity_name [''User.js'', ''Account.ts''] = [''User'', ''Account'']"
    by code_simp
  have d: "distinct (map entity_name (model_files pair_dir))"
    unfolding mf by code_simp
  obtain s where s: "snd (analyzeProject demo_parse (Some pair_dir)) = Inr s"
  proof -
    have "isl (snd (analyzeProject demo_parse (Some pair_dir))) = False"
      by code_simp
    then show ?thesis
      using that by (cases "snd (analyzeProject demo_parse (Some pair_dir))") auto
  qed
  have run: "analyzeProject demo_parse (Some pair_dir)
               = (fst (analyzeProject demo_parse (Some pair_dir)), Inr s)"
    using s by (simp add: prod_eq_iff)
  note inst = entity_names_unique [OF run]
  from inst have n: "map name (models s) = [''User'', ''Account'']"
    unfolding mf wf en by blast
  from inst d have u: "distinct (map name (models s))"
    by blast
  show ?thesis
  proof (intro conjI exI [of _ s])
    show "model_files pair_dir = [''User.js'', ''broken.js'', ''Account.ts'']" by (rule mf)
    show "filter (well_formed demo_parse pair_dir) (model_files pair_dir)
            = [''User.js'', ''Account.ts'']"
      unfolding mf by (rule wf)
    show "distinct (map entity_name (model_files pair_dir))" by (rule d)
    show "snd (analyzeProject demo_parse (Some pair_dir)) = Inr s" by (rule s)
    show "map name (models s) = [''User'', ''Account'']" by (rule n)
    show "distinct (map name (models s))" by (rule u)
  qed
qed

text \<open>
  C9 as stated fails: \<^verbatim>\<open>user.js\<close> and \<^verbatim>\<open>user.ts\<close>, both well formed, give two entities
  named \<^verbatim>\<open>user\<close>.
\<close>

theorem entity_names_unique_counterexample:
  "map fst twin_dir = [''user.js'', ''user.ts'']
   \<and> filter (well_formed demo_parse twin_dir) (model_files twin_dir) = [''user.js'', ''user.ts'']
   \<and> map_sum id (\<lambda>s. map name (models s)) (snd (analyzeProject demo_parse (Some twin_dir)))
       = Inr [''user'', ''user'']"
  by code_simp

text \<open>
  C6. \<^verbatim>\<open>reload\<close> ends in one of two ways. When it returns, the tracker is the one before
  the call with the snapshot replaced by the result of \<^verbatim>\<open>analyzeProject\<close>, a complete
  snapshot: it has entities, and its description is the one generated from them. When it
  throws, the tracker is unchanged, so it holds the same models and the same schema text,
  the error is the one \<^verbatim>\<open>analyzeProject\<close> threw, and the failure has been reported.
\<close>

theorem reload_swaps_or_keeps:
  assumes "reload parse modelsDir ws = (warnings, outcome, ws')"
  shows "(outcome = Inr ()
            \<longrightarrow> (\<exists>s. snd (analyzeProject parse modelsDir) = Inr s
                     \<and> ws' = ws\<lparr>schemaInfo := s\<rparr>
                     \<and> models s \<noteq> [] \<and> schema s = generateSchemaDescription (models s)))
         \<and> (\<forall>e. outcome = Inl e
               \<longrightarrow> ws' = ws \<and> snd (analyzeProject parse modelsDir) = Inl e
                   \<and> FailedReload \<in> set warnings)"
proof -
  obtain w r where a: "analyzeProject parse modelsDir = (w, r)"
    by (cases "analyzeProject parse modelsDir")
  show ?thesis
  proof (cases r)
    case (Inl e)
    with a assms show ?thesis
      by (auto simp: reload_def)
  next
    case (Inr s)
    with a obtain dir where dir: "modelsDir = Some dir"
      by (cases modelsDir) (auto simp: analyzeProject_def)
    have ne: "filter (well_formed parse dir) (model_files dir) \<noteq> []"
      using analyzeProject_outcome(3) [of parse dir w r] a dir Inr by auto
    from analyzeProject_outcome(2) [of parse dir w r] a dir Inr ne
    have "map name (models s) = map entity_name (filter (well_formed parse dir) (model_files dir))"
      and sch: "schema s = generateSchemaDescription (models s)"
      by auto
    with ne have "models s \<noteq> []"
      by (metis map_is_Nil_conv)
    with sch a Inr assms show ?thesis
      by (auto simp: reload_def)
  qed
qed

theorem reload_swaps_or_keeps_witness:
  "reload demo_parse None demo_tracker = ([FailedReload], Inl NoModelsDirectory, demo_tracker)
   \<and> fst (snd (reload demo_parse (Some demo_dir) demo_tracker)) = Inr ()
   \<and> (\<exists>s. snd (analyzeProject demo_parse (Some demo_dir)) = Inr s
          \<and> snd (snd (reload demo_parse (Some demo_dir) demo_tracker))
              = demo_tracker\<lparr>schemaInfo := s\<rparr>
          \<and> models s \<noteq> [])"
proof -
  have f: "reload demo_parse None demo_tracker
             = ([FailedReload], Inl NoModelsDirectory, demo_tracker)"
    by code_simp
  have ok: "fst (snd (reload demo_parse (Some demo_dir) demo_tracker)) = Inr ()"
    by code_simp
  have run: "reload demo_parse (Some demo_dir) demo_tracker
               = (fst (reload demo_parse (Some demo_dir) demo_tracker), Inr (),
                  snd (snd (reload demo_parse (Some demo_dir) demo_tracker)))"
    using ok by (simp add: prod_eq_iff)
  from reload_swaps_or_keeps [OF run] reload_swaps_or_keeps [OF f] f ok show ?thesis
    by auto
qed





lemma takeWhile_word [simp]:
  "\<forall>c \<in> set w. is_word c \<Longrightarrow> \<not> is_word x \<Longrightarrow> takeWhile is_word (w @ x # s) = w"
  by (induction w) auto

lemma dropWhile_word [simp]:
  "\<forall>c \<in> set w. is_word c \<Longrightarrow> \<not> is_word x \<Longrightarrow> dropWhile is_word (w @ x # s) = x # s"
  by (induction w) auto

lemma class_facts [simp]:
  "\<not> is_space CHR ''(''" "\<not> is_space CHR ''{''" "\<not> is_word CHR ''.''" "\<not> is_word CHR '',''"
  by (simp_all add: is_space_def is_word_def)









end
